theory Spec2Isabelle
  imports Complex_Main "HOL-Library.AList"
begin

section \<open>Account pool (src/pool.js)\<close>

text \<open>
  The pool keeps its accounts in a JavaScript \<open>Map\<close> from id to account object. The objects
  are mutable and shared by reference: \<open>recordError\<close> hands the object itself (not its id)
  to the timer callback. The model therefore has an explicit object store; a reference is
  an index into it, the \<open>Map\<close> is an association list from id to reference in insertion
  order, and a pending \<open>setTimeout\<close> is a pair of its due time (milliseconds) and the
  reference its callback closes over. Objects are never freed: deleting an account only
  removes the \<open>Map\<close> entry.

  Writing the roster to disk (\<open>save\<close>) does not change the pool and is left out. The
  optional \<open>usage\<close> field, written only by \<open>refreshAccountUsage\<close>, is left out as well.
\<close>

datatype account_status = Active | Cooldown | Invalid | Disabled

record account =
  acc_id :: string
  acc_name :: string
  credentials :: string
  status :: account_status
  requestCount :: nat
  errorCount :: nat
  createdAt :: string
  lastUsedAt :: "string option"

type_synonym ref = nat

record pool =
  store :: "account list"
  accounts :: "(string \<times> ref) list"
  tokenManagers :: "(string \<times> string) list"
  strategy :: string
  roundRobinIndex :: nat
  timers :: "(nat \<times> ref) list"

datatype pool_error = AccountTypeError | TokenInvalid

record selection =
  sel_id :: string
  sel_name :: string
  sel_tokenManager :: "string option"

text \<open>The constructor: an empty roster, strategy \<open>round-robin\<close>, index 0.\<close>

definition newPool :: pool where
  "newPool = \<lparr>store = [], accounts = [], tokenManagers = [], strategy = ''round-robin'',
     roundRobinIndex = 0, timers = []\<rparr>"

text \<open>
  \<open>addAccount(account, skipValidation)\<close>. The caller's id (or a fresh UUID when it has
  none), its name (or the default name, a non-ASCII literal passed in here as
  \<open>defaultName\<close>) and the current time are parameters; \<open>tokenOk\<close> is whether
  \<open>ensureValidToken\<close> succeeds on the new credentials. A token manager is modelled by the
  credentials it was built from.
\<close>

definition addAccount ::
  "string option \<Rightarrow> string \<Rightarrow> string option \<Rightarrow> string \<Rightarrow> string \<Rightarrow> string \<Rightarrow> bool \<Rightarrow> bool \<Rightarrow> pool
     \<Rightarrow> pool_error + (string \<times> pool)" where
  "addAccount givenId uuid givenName defaultName creds now skipValidation tokenOk s =
     (let i = (case givenId of Some x \<Rightarrow> (if x = [] then uuid else x) | None \<Rightarrow> uuid);
          newAccount = \<lparr>acc_id = i,
             acc_name = (case givenName of Some n \<Rightarrow> (if n = [] then defaultName else n)
                         | None \<Rightarrow> defaultName),
             credentials = creds, status = Active, requestCount = 0, errorCount = 0,
             createdAt = now, lastUsedAt = None\<rparr>
      in if \<not> skipValidation \<and> \<not> tokenOk then Inl TokenInvalid
         else Inr (i, s\<lparr>store := store s @ [newAccount],
                        accounts := AList.update i (length (store s)) (accounts s),
                        tokenManagers := AList.update i creds (tokenManagers s)\<rparr>))"

definition removeAccount :: "string \<Rightarrow> pool \<Rightarrow> bool \<times> pool" where
  "removeAccount i s =
     (map_of (accounts s) i \<noteq> None,
      s\<lparr>accounts := AList.delete i (accounts s),
        tokenManagers := AList.delete i (tokenManagers s)\<rparr>)"

text \<open>The array \<open>available\<close> of \<open>selectAccount\<close>: the active accounts in \<open>Map\<close> order.\<close>

definition available :: "pool \<Rightarrow> ref list" where
  "available s = filter (\<lambda>r. status (store s ! r) = Active) (map snd (accounts s))"

text \<open>
  \<open>available.reduce((a, b) => a.requestCount < b.requestCount ? a : b)\<close> on a non-empty
  array: a left fold from the first element.
\<close>

definition leastUsed :: "account list \<Rightarrow> ref \<Rightarrow> ref list \<Rightarrow> ref" where
  "leastUsed st r rs =
     foldl (\<lambda>a b. if requestCount (st ! a) < requestCount (st ! b) then a else b) r rs"

text \<open>
  \<open>selectAccount()\<close>. \<open>u\<close> is the value of \<open>Math.random()\<close> and \<open>now\<close> the timestamp
  \<open>new Date().toISOString()\<close>. The result \<open>Inr None\<close> is JavaScript's \<open>null\<close>. An index
  outside the array would read \<open>undefined\<close> and raise a TypeError at
  \<open>selected.requestCount++\<close>, before anything is mutated.
\<close>

definition pick :: "real \<Rightarrow> pool \<Rightarrow> ref list \<Rightarrow> (pool_error + ref) \<times> pool" where
  "pick u s av =
     (if strategy s = ''random'' then
        (let i = \<lfloor>u * real (length av)\<rfloor>
         in if 0 \<le> i \<and> i < int (length av) then (Inr (av ! nat i), s)
            else (Inl AccountTypeError, s))
      else if strategy s = ''least-used'' then
        (Inr (leastUsed (store s) (hd av) (tl av)), s)
      else
        (Inr (av ! (roundRobinIndex s mod length av)),
         s\<lparr>roundRobinIndex := roundRobinIndex s + 1\<rparr>))"

definition selectAccount :: "real \<Rightarrow> string \<Rightarrow> pool \<Rightarrow> (pool_error + selection option) \<times> pool" where
  "selectAccount u now s =
     (let av = available s
      in if length av = 0 then (Inr None, s)
         else (case pick u s av of
                 (Inl e, s1) \<Rightarrow> (Inl e, s1)
               | (Inr r, s1) \<Rightarrow>
                   (let a = store s1 ! r;
                        a' = a\<lparr>requestCount := requestCount a + 1, lastUsedAt := Some now\<rparr>
                    in (Inr (Some \<lparr>sel_id = acc_id a', sel_name = acc_name a',
                                    sel_tokenManager = map_of (tokenManagers s1) (acc_id a')\<rparr>),
                        s1\<lparr>store := (store s1)[r := a']\<rparr>))))"

text \<open>
  \<open>recordError(id, isRateLimit)\<close>, called when the clock reads \<open>clock\<close> milliseconds.
  With the flag set the status becomes \<open>cooldown\<close> and a one-shot timer is scheduled
  \<open>5 * 60 * 1000\<close> ms later; its callback is \<open>cooldownTimeout\<close> on the same object.
\<close>

definition recordError :: "nat \<Rightarrow> string \<Rightarrow> bool \<Rightarrow> pool \<Rightarrow> pool" where
  "recordError clock i isRateLimit s =
     (case map_of (accounts s) i of
        None \<Rightarrow> s
      | Some r \<Rightarrow>
          (let a = store s ! r;
               a1 = a\<lparr>errorCount := errorCount a + 1\<rparr>
           in if isRateLimit
              then s\<lparr>store := (store s)[r := a1\<lparr>status := Cooldown\<rparr>],
                     timers := timers s @ [(clock + 5 * 60 * 1000, r)]\<rparr>
              else s\<lparr>store := (store s)[r := a1]\<rparr>))"

definition cooldownTimeout :: "ref \<Rightarrow> pool \<Rightarrow> pool" where
  "cooldownTimeout r s =
     (if status (store s ! r) = Cooldown
      then s\<lparr>store := (store s)[r := (store s ! r)\<lparr>status := Active\<rparr>]\<rparr>
      else s)"

text \<open>
  The event loop reaching time \<open>t\<close>: every timer that is due fires once, in the order of
  scheduling, and is removed.
\<close>

definition runTimers :: "nat \<Rightarrow> pool \<Rightarrow> pool" where
  "runTimers t s =
     fold (\<lambda>(d, r). cooldownTimeout r) (filter (\<lambda>(d, r). d \<le> t) (timers s))
       (s\<lparr>timers := filter (\<lambda>(d, r). \<not> d \<le> t) (timers s)\<rparr>)"

definition setStatus :: "account_status \<Rightarrow> string \<Rightarrow> pool \<Rightarrow> bool \<times> pool" where
  "setStatus st i s =
     (case map_of (accounts s) i of
        None \<Rightarrow> (False, s)
      | Some r \<Rightarrow> (True, s\<lparr>store := (store s)[r := (store s ! r)\<lparr>status := st\<rparr>]\<rparr>))"

definition markInvalid :: "string \<Rightarrow> pool \<Rightarrow> pool" where
  "markInvalid i s = snd (setStatus Invalid i s)"

definition enableAccount :: "string \<Rightarrow> pool \<Rightarrow> bool \<times> pool" where
  "enableAccount i s = setStatus Active i s"

definition disableAccount :: "string \<Rightarrow> pool \<Rightarrow> bool \<times> pool" where
  "disableAccount i s = setStatus Disabled i s"

definition setStrategy :: "string \<Rightarrow> pool \<Rightarrow> pool" where
  "setStrategy st s = s\<lparr>strategy := st\<rparr>"

text \<open>A roster of two accounts, the first one invalid, used in the examples below.\<close>

definition demoPool :: pool where
  "demoPool =
     \<lparr>store = [\<lparr>acc_id = ''a1'', acc_name = ''first'', credentials = ''c1'', status = Invalid,
                  requestCount = 4, errorCount = 1, createdAt = ''t0'', lastUsedAt = None\<rparr>,
               \<lparr>acc_id = ''a2'', acc_name = ''second'', credentials = ''c2'', status = Active,
                  requestCount = 7, errorCount = 0, createdAt = ''t0'', lastUsedAt = None\<rparr>],
      accounts = [(''a1'', 0), (''a2'', Suc 0)],
      tokenManagers = [(''a1'', ''c1''), (''a2'', ''c2'')],
      strategy = ''random'', roundRobinIndex = 0, timers = []\<rparr>"

section \<open>JavaScript values and strings (src/unnamed/part\_000)\<close>

text \<open>
  The translator works on values parsed from the client's JSON. They are modelled by the
  datatype \<open>json\<close>; \<open>JUndefined\<close> is JavaScript's \<open>undefined\<close>, the value of a missing
  property. An object is the association list of its own properties in the order
  \<open>Object.keys\<close> lists them. Numbers are modelled as integers. A \<open>char\<close> stands for one
  code unit of a JavaScript string; the character classes and the lower-casing below are
  those of the ASCII range.
\<close>

datatype json =
    JNull
  | JUndefined
  | JBool bool
  | JNum int
  | JStr string
  | JArr "json list"
  | JObj "(string \<times> json) list"

datatype js_error = TypeError | UnsupportedModel string | EmptyMessages

subsection \<open>Decimal rendering of numbers in template literals\<close>

definition digitChars :: string where
  "digitChars = ''0123456789''"

fun showNat :: "nat \<Rightarrow> string" where
  "showNat n = (if n < 10 then [digitChars ! n] else showNat (n div 10) @ [digitChars ! (n mod 10)])"

declare showNat.simps [simp del]

definition showInt :: "int \<Rightarrow> string" where
  "showInt i = (if i < 0 then CHR ''-'' # showNat (nat (- i)) else showNat (nat i))"

text \<open>Reading a decimal back, used only to show that the rendering is injective.\<close>

definition digitVal :: "char \<Rightarrow> nat" where
  "digitVal c = length (takeWhile (\<lambda>d. d \<noteq> c) digitChars)"

definition readNat :: "string \<Rightarrow> nat" where
  "readNat s = foldl (\<lambda>a c. 10 * a + digitVal c) 0 s"

lemma digitVal_digit: "n < 10 \<Longrightarrow> digitVal (digitChars ! n) = n"
proof -
  assume "n < 10"
  then have "n \<in> {0, 1, 2, 3, 4, 5, 6, 7, 8, 9}" by auto
  then show ?thesis by (auto simp: digitChars_def digitVal_def)
qed

lemma readNat_showNat: "readNat (showNat n) = n"
proof (induction n rule: showNat.induct)
  case (1 n)
  show ?case
  proof (cases "n < 10")
    case True
    then show ?thesis
      by (simp add: showNat.simps [of n] readNat_def digitVal_digit)
  next
    case False
    have m: "n mod 10 < 10" by simp
    from False 1 have ih: "readNat (showNat (n div 10)) = n div 10" by simp
    from False have "readNat (showNat n) =
        10 * readNat (showNat (n div 10)) + digitVal (digitChars ! (n mod 10))"
      by (simp add: showNat.simps [of n] readNat_def)
    also have "\<dots> = 10 * (n div 10) + n mod 10"
      by (simp only: ih digitVal_digit [OF m])
    also have "\<dots> = n" by simp
    finally show ?thesis .
  qed
qed

lemma showNat_inj: "showNat a = showNat b \<Longrightarrow> a = b"
  by (metis readNat_showNat)

subsection \<open>Coercions\<close>

text \<open>Truthiness, as tested by \<open>!x\<close>, \<open>x || y\<close> and \<open>x ? a : b\<close>.\<close>

fun truthy :: "json \<Rightarrow> bool" where
  "truthy JNull = False"
| "truthy JUndefined = False"
| "truthy (JBool b) = b"
| "truthy (JNum n) = (n \<noteq> 0)"
| "truthy (JStr s) = (s \<noteq> [])"
| "truthy (JArr xs) = True"
| "truthy (JObj kvs) = True"

definition orElse :: "json \<Rightarrow> json \<Rightarrow> json" where
  "orElse x y = (if truthy x then x else y)"

text \<open>
  Reading a property \<open>v.k\<close> raises a TypeError when \<open>v\<close> is \<open>null\<close> or \<open>undefined\<close>
  (\<open>nullish\<close>). Otherwise it is the property's value on an object that has it, and
  \<open>undefined\<close> in every other case: none of the names read by the translator is a
  built-in property of strings, numbers, booleans or arrays.
\<close>

definition nullish :: "json \<Rightarrow> bool" where
  "nullish v = (v = JNull \<or> v = JUndefined)"

fun propOf :: "json \<Rightarrow> string \<Rightarrow> json" where
  "propOf (JObj kvs) k = (case map_of kvs k of Some v \<Rightarrow> v | None \<Rightarrow> JUndefined)"
| "propOf v k = JUndefined"

fun joinWith :: "string \<Rightarrow> string list \<Rightarrow> string" where
  "joinWith sep [] = []"
| "joinWith sep [x] = x"
| "joinWith sep (x # y # ys) = x @ sep @ joinWith sep (y # ys)"

text \<open>
  \<open>String(v)\<close>, which is also what string concatenation and template literals apply.
  \<open>Array.prototype.join\<close> renders \<open>null\<close> and \<open>undefined\<close> elements as the empty string
  and every other element by \<open>String\<close>.
\<close>

fun toStr :: "json \<Rightarrow> string" where
  "toStr JNull = ''null''"
| "toStr JUndefined = ''undefined''"
| "toStr (JBool b) = (if b then ''true'' else ''false'')"
| "toStr (JNum n) = showInt n"
| "toStr (JStr s) = s"
| "toStr (JArr xs) =
     joinWith '',''
       (map (\<lambda>x. case x of JNull \<Rightarrow> [] | JUndefined \<Rightarrow> [] | _ \<Rightarrow> toStr x) xs)"
| "toStr (JObj kvs) = ''[object Object]''"

definition joinElem :: "json \<Rightarrow> string" where
  "joinElem x = (case x of JNull \<Rightarrow> [] | JUndefined \<Rightarrow> [] | _ \<Rightarrow> toStr x)"

definition joinJs :: "string \<Rightarrow> json list \<Rightarrow> string" where
  "joinJs sep xs = joinWith sep (map joinElem xs)"

text \<open>
  \<open>for (const block of v)\<close>: arrays and strings are iterable; every other value raises a
  TypeError.
\<close>

fun iterate :: "json \<Rightarrow> js_error + json list" where
  "iterate (JArr xs) = Inr xs"
| "iterate (JStr s) = Inr (map (\<lambda>c. JStr [c]) s)"
| "iterate v = Inl TypeError"

text \<open>Sequencing of steps that may raise: the first exception ends the function.\<close>

definition bindE :: "js_error + 'a \<Rightarrow> ('a \<Rightarrow> js_error + 'b) \<Rightarrow> js_error + 'b" where
  "bindE m f = (case m of Inl e \<Rightarrow> Inl e | Inr x \<Rightarrow> f x)"

text \<open>A loop body that may raise, run over a list with an accumulator.\<close>

fun foldE :: "('a \<Rightarrow> 'b \<Rightarrow> js_error + 'b) \<Rightarrow> 'a list \<Rightarrow> 'b \<Rightarrow> js_error + 'b" where
  "foldE f [] acc = Inr acc"
| "foldE f (x # xs) acc = (case f x acc of Inl e \<Rightarrow> Inl e | Inr acc' \<Rightarrow> foldE f xs acc')"

subsection \<open>Strings\<close>

definition lowerLetters :: string where
  "lowerLetters = ''abcdefghijklmnopqrstuvwxyz''"

definition upperLetters :: string where
  "upperLetters = ''ABCDEFGHIJKLMNOPQRSTUVWXYZ''"

definition toLowerChar :: "char \<Rightarrow> char" where
  "toLowerChar c = (case map_of (zip upperLetters lowerLetters) c of Some l \<Rightarrow> l | None \<Rightarrow> c)"

definition toLowerCase :: "string \<Rightarrow> string" where
  "toLowerCase s = map toLowerChar s"

fun startsWith :: "string \<Rightarrow> string \<Rightarrow> bool" where
  "startsWith s [] = True"
| "startsWith [] (c # cs) = False"
| "startsWith (x # xs) (c # cs) = (x = c \<and> startsWith xs cs)"

fun includesStr :: "string \<Rightarrow> string \<Rightarrow> bool" where
  "includesStr [] sub = (sub = [])"
| "includesStr (x # xs) sub = (startsWith (x # xs) sub \<or> includesStr xs sub)"

definition isDigitChar :: "char \<Rightarrow> bool" where
  "isDigitChar c = (c \<in> set digitChars)"

definition isWordChar :: "char \<Rightarrow> bool" where
  "isWordChar c = (c \<in> set lowerLetters \<or> c \<in> set upperLetters \<or> isDigitChar c \<or> c = CHR ''_'')"

subsection \<open>Tool names\<close>

text \<open>\<open>.replace(/_+/g, '_')\<close>: every run of underscores becomes one underscore.\<close>

fun collapseUnderscores :: "string \<Rightarrow> string" where
  "collapseUnderscores [] = []"
| "collapseUnderscores [c] = [c]"
| "collapseUnderscores (c # d # cs) =
     (if c = CHR ''_'' \<and> d = CHR ''_'' then collapseUnderscores (d # cs)
      else c # collapseUnderscores (d # cs))"

text \<open>\<open>.replace(/^_+|_+$/g, '')\<close>: leading and trailing underscores are removed.\<close>

definition trimUnderscores :: "string \<Rightarrow> string" where
  "trimUnderscores s =
     rev (dropWhile (\<lambda>c. c = CHR ''_'') (rev (dropWhile (\<lambda>c. c = CHR ''_'') s)))"

definition sanitizeToolName :: "string \<Rightarrow> string" where
  "sanitizeToolName name =
     (let raw = name;
          replaced = collapseUnderscores (map (\<lambda>c. if isWordChar c then c else CHR ''_'') raw);
          trimmed = trimUnderscores replaced;
          safe = (if length trimmed > 0 then trimmed else ''tool'')
      in if isDigitChar (hd safe) then ''t_'' @ safe else safe)"

text \<open>
  The per-request naming state: \<open>toolNameMap\<close> is a \<open>Map\<close> from original to assigned name,
  \<open>usedToolNames\<close> a \<open>Set\<close> of assigned names; both are kept in insertion order.
\<close>

record toolNames =
  toolNameMap :: "(string \<times> string) list"
  usedToolNames :: "string list"

definition setAdd :: "'a \<Rightarrow> 'a list \<Rightarrow> 'a list" where
  "setAdd x xs = (if x \<in> set xs then xs else xs @ [x])"

definition candidateName :: "string \<Rightarrow> nat \<Rightarrow> string" where
  "candidateName base i = base @ ''_'' @ showNat i"

text \<open>
  The loop \<open>while (usedNames.has(candidate)) candidate = `${base}_${i++}`\<close>, entered with
  a candidate that is taken. It ends because the candidates are pairwise different and
  the set is finite.
\<close>

function nextFree :: "string \<Rightarrow> string list \<Rightarrow> nat \<Rightarrow> string" where
  "nextFree base used i =
     (if candidateName base i \<in> set used then nextFree base used (i + 1)
      else candidateName base i)"
  by pat_completeness auto
termination
proof (relation "measure (\<lambda>(base, used, i).
         length (filter (\<lambda>u. \<exists>j\<ge>i. u = candidateName base j) used))")
  show "wf (measure (\<lambda>(base, used, i).
         length (filter (\<lambda>u. \<exists>j\<ge>i. u = candidateName base j) used)))"
    by simp
next
  fix base :: string and used :: "string list" and i :: nat
  assume taken: "candidateName base i \<in> set used"
  define P where "P = (\<lambda>u. \<exists>j\<ge>i + 1. u = candidateName base j)"
  define Q where "Q = (\<lambda>u. \<exists>j\<ge>i. u = candidateName base j)"
  have imp: "Q u" if "P u" for u
    using that unfolding P_def Q_def by (metis add_leD1)
  have eq: "filter P used = filter P (filter Q used)"
    by (induction used) (auto dest: imp)
  have inQ: "candidateName base i \<in> set (filter Q used)"
    using taken unfolding Q_def by auto
  have notP: "\<not> P (candidateName base i)"
    unfolding P_def by (auto simp: candidateName_def dest: showNat_inj)
  have "length (filter P (filter Q used)) < length (filter Q used)"
    using inQ notP by (rule length_filter_less)
  with eq have "length (filter P used) < length (filter Q used)"
    by simp
  then show "((base, used, i + 1), (base, used, i)) \<in> measure (\<lambda>(base, used, i).
         length (filter (\<lambda>u. \<exists>j\<ge>i. u = candidateName base j) used))"
    unfolding P_def Q_def by simp
qed

declare nextFree.simps [simp del]

definition getOrCreateKiroToolName :: "string \<Rightarrow> toolNames \<Rightarrow> string \<times> toolNames" where
  "getOrCreateKiroToolName originalName nm =
     (case map_of (toolNameMap nm) originalName of
        Some k \<Rightarrow> (k, nm)
      | None \<Rightarrow>
          (let base = sanitizeToolName originalName;
               candidate = (if base \<in> set (usedToolNames nm)
                            then nextFree base (usedToolNames nm) 2 else base)
           in (candidate,
               \<lparr>toolNameMap = AList.update originalName candidate (toolNameMap nm),
                usedToolNames = setAdd candidate (usedToolNames nm)\<rparr>)))"

definition isUnsupportedTool :: "string \<Rightarrow> bool" where
  "isUnsupportedTool name =
     (let lower = toLowerCase name in lower = ''web_search'' \<or> lower = ''websearch'')"

text \<open>
  \<open>normalizeJsonObject(value)\<close> with the default fallback \<open>{}\<close>. \<open>JSON.parse\<close> is a
  parameter: \<open>None\<close> stands for its SyntaxError.
\<close>

definition normalizeJsonObject :: "(string \<Rightarrow> json option) \<Rightarrow> json \<Rightarrow> json" where
  "normalizeJsonObject parse v =
     (case v of
        JNull \<Rightarrow> JObj []
      | JUndefined \<Rightarrow> JObj []
      | JStr s \<Rightarrow> (case parse s of Some (JObj kvs) \<Rightarrow> JObj kvs | _ \<Rightarrow> JObj [])
      | JObj kvs \<Rightarrow> JObj kvs
      | _ \<Rightarrow> JObj [])"


section \<open>Request translation (src/unnamed/part\_000, class KiroClient)\<close>

subsection \<open>The client request and the upstream envelope\<close>

text \<open>
  The request record is typed as far as the translator relies on it: \<open>model\<close>, the role of
  a message and the name of a tool definition are strings. The \<open>content\<close> of a message,
  \<open>system\<close> and \<open>input_schema\<close> are arbitrary values, inspected at run time.
\<close>

record message =
  msg_role :: string
  msg_content :: json

record toolDef =
  td_name :: string
  td_description :: "string option"
  td_input_schema :: json

record thinkingCfg =
  th_type :: string
  th_budget_tokens :: "int option"

record anthropicReq =
  req_model :: string
  req_system :: json
  req_messages :: "message list"
  req_tools :: "toolDef list option"
  req_tool_choice :: "string option"
  req_thinking :: "thinkingCfg option"

record toolResult =
  tr_toolUseId :: json
  tr_status :: string
  tr_content :: "string list"

record toolUse =
  tu_toolUseId :: json
  tu_name :: string
  tu_input :: json

record toolSpecification =
  ts_name :: string
  ts_description :: string
  ts_inputSchema :: json

record userInputMessageContext =
  ctx_tools :: "toolSpecification list option"
  ctx_toolResults :: "toolResult list option"

record userInputMessage =
  uim_content :: string
  uim_modelId :: string
  uim_origin :: string
  uim_userInputMessageContext :: "userInputMessageContext option"

record assistantResponseMessage =
  arm_content :: string
  arm_toolUses :: "toolUse list option"

datatype historyEntry =
    UserInputMessage userInputMessage
  | AssistantResponseMessage assistantResponseMessage

record conversationState =
  agentContinuationId :: string
  agentTaskType :: string
  chatTriggerType :: string
  currentMessage :: userInputMessage
  conversationId :: string
  history :: "historyEntry list"

record kiroRequest =
  kr_conversationState :: conversationState
  kr_profileArn :: "string option"

text \<open>
  What a \<open>KiroClient\<close> is constructed with. \<open>dbManager\<close> is \<open>findModelMapping\<close> reduced to
  the \<open>internalId\<close> of the mapping it finds; \<open>jsonParse\<close> is \<open>JSON.parse\<close>. The credentials
  are those of the client's token manager.
\<close>

record kiroClient =
  dbManager :: "(string \<Rightarrow> string option) option"
  jsonParse :: "string \<Rightarrow> json option"
  cfg_region :: "string option"
  cfg_kiroVersion :: "string option"
  cfg_proxyUrl :: "string option"
  cred_machineId :: "string option"
  cred_profileArn :: "string option"

definition nl :: string where
  "nl = [CHR 0x0A]"

subsection \<open>mapModel\<close>

definition mapModel :: "kiroClient \<Rightarrow> string \<Rightarrow> string option" where
  "mapModel cl model =
     (case dbManager cl of
        None \<Rightarrow>
          (let lower = toLowerCase model
           in if includesStr lower ''sonnet'' then Some ''claude-sonnet-4.5''
              else if includesStr lower ''opus'' then Some ''claude-opus-4.5''
              else if includesStr lower ''haiku'' then Some ''claude-haiku-4.5''
              else None)
      | Some findModelMapping \<Rightarrow> findModelMapping model)"

subsection \<open>Content extractors\<close>

definition extractTextContent :: "json \<Rightarrow> js_error + string" where
  "extractTextContent content =
     (case content of
        JStr s \<Rightarrow> Inr s
      | JArr xs \<Rightarrow>
          (if \<exists>c \<in> set xs. nullish c then Inl TypeError
           else Inr (joinJs nl (map (\<lambda>c. propOf c ''text'')
                                  (filter (\<lambda>c. propOf c ''type'' = JStr ''text'') xs))))
      | _ \<Rightarrow> Inr [])"

text \<open>The string \<open>resultContent\<close> of a \<open>tool_result\<close> block.\<close>

definition resultContent :: "json \<Rightarrow> js_error + string" where
  "resultContent c =
     (case c of
        JStr s \<Rightarrow> Inr s
      | JArr xs \<Rightarrow>
          (if \<exists>x \<in> set xs. nullish x then Inl TypeError
           else Inr (joinJs nl (map (\<lambda>x. orElse (propOf x ''text'') (JStr [])) xs)))
      | _ \<Rightarrow> Inr [])"

record userContent =
  uc_text :: string
  uc_toolResults :: "toolResult list"

text \<open>One round of the loop over the blocks of a user message.\<close>

definition userBlock ::
  "json \<Rightarrow> json list \<times> toolResult list \<Rightarrow> js_error + json list \<times> toolResult list" where
  "userBlock block acc =
     (if nullish block then Inl TypeError
      else if propOf block ''type'' = JStr ''text'' then
        Inr (fst acc @ [propOf block ''text''], snd acc)
      else if propOf block ''type'' = JStr ''tool_result'' then
        (case resultContent (propOf block ''content'') of
           Inl e \<Rightarrow> Inl e
         | Inr rc \<Rightarrow>
             Inr (fst acc,
                  snd acc @ [\<lparr>tr_toolUseId = propOf block ''tool_use_id'',
                              tr_status = (if truthy (propOf block ''is_error'') then ''error''
                                           else ''success''),
                              tr_content = [rc]\<rparr>]))
      else Inr acc)"

definition extractUserContent :: "json \<Rightarrow> js_error + userContent" where
  "extractUserContent content =
     (if \<not> truthy content then Inr \<lparr>uc_text = [], uc_toolResults = []\<rparr>
      else case content of
        JStr s \<Rightarrow> Inr \<lparr>uc_text = s, uc_toolResults = []\<rparr>
      | _ \<Rightarrow>
          (case iterate content of
             Inl e \<Rightarrow> Inl e
           | Inr blocks \<Rightarrow>
               (case foldE userBlock blocks ([], []) of
                  Inl e \<Rightarrow> Inl e
                | Inr (textParts, toolResults) \<Rightarrow>
                    Inr \<lparr>uc_text = joinJs nl textParts, uc_toolResults = toolResults\<rparr>)))"

record assistantAcc =
  aa_thinkingContent :: string
  aa_textParts :: "json list"
  aa_toolUses :: "toolUse list"
  aa_names :: toolNames

text \<open>
  One round of the loop over the blocks of an assistant message. \<open>block.name.toLowerCase()\<close>
  raises a TypeError unless the name is a string.
\<close>

definition assistantBlock ::
  "(string \<Rightarrow> json option) \<Rightarrow> json \<Rightarrow> assistantAcc \<Rightarrow> js_error + assistantAcc" where
  "assistantBlock parse block acc =
     (if nullish block then Inl TypeError
      else if propOf block ''type'' = JStr ''thinking'' then
        Inr (acc\<lparr>aa_thinkingContent :=
                   aa_thinkingContent acc @ toStr (orElse (propOf block ''thinking'') (JStr []))\<rparr>)
      else if propOf block ''type'' = JStr ''text'' then
        Inr (acc\<lparr>aa_textParts := aa_textParts acc @ [propOf block ''text'']\<rparr>)
      else if propOf block ''type'' = JStr ''tool_use'' then
        (case propOf block ''name'' of
           JStr name \<Rightarrow>
             (if isUnsupportedTool name then Inr acc
              else (let (kiroName, nm) = getOrCreateKiroToolName name (aa_names acc)
                    in Inr (acc\<lparr>aa_toolUses := aa_toolUses acc @
                                    [\<lparr>tu_toolUseId = propOf block ''id'',
                                      tu_name = kiroName,
                                      tu_input = normalizeJsonObject parse
                                                   (orElse (propOf block ''input'') (JObj []))\<rparr>],
                                 aa_names := nm\<rparr>)))
         | _ \<Rightarrow> Inl TypeError)
      else Inr acc)"

record assistantContent =
  ac_text :: string
  ac_toolUses :: "toolUse list"

definition finalText :: "assistantAcc \<Rightarrow> string" where
  "finalText acc =
     (let t = (if aa_thinkingContent acc \<noteq> [] then
                 (if length (aa_textParts acc) > 0
                  then ''<thinking>'' @ aa_thinkingContent acc @ ''</thinking>'' @ nl @ nl
                         @ joinJs nl (aa_textParts acc)
                  else ''<thinking>'' @ aa_thinkingContent acc @ ''</thinking>'')
               else joinJs nl (aa_textParts acc))
      in if t = [] \<and> length (aa_toolUses acc) > 0 then ''OK'' else t)"

definition extractAssistantContent ::
  "(string \<Rightarrow> json option) \<Rightarrow> json \<Rightarrow> toolNames \<Rightarrow> js_error + assistantContent \<times> toolNames" where
  "extractAssistantContent parse content names =
     (case content of
        JStr s \<Rightarrow> Inr (\<lparr>ac_text = s, ac_toolUses = []\<rparr>, names)
      | _ \<Rightarrow>
          (case iterate (orElse content (JArr [])) of
             Inl e \<Rightarrow> Inl e
           | Inr blocks \<Rightarrow>
               (case foldE (assistantBlock parse) blocks
                       \<lparr>aa_thinkingContent = [], aa_textParts = [], aa_toolUses = [],
                        aa_names = names\<rparr> of
                  Inl e \<Rightarrow> Inl e
                | Inr acc \<Rightarrow>
                    Inr (\<lparr>ac_text = finalText acc, ac_toolUses = aa_toolUses acc\<rparr>,
                         aa_names acc))))"

subsection \<open>mergeUserMessages\<close>

text \<open>
  The loop shared by \<open>mergeUserMessages\<close> and the current-message construction: the
  non-empty texts and all tool results of a run of user messages.
\<close>

definition collectUser ::
  "message \<Rightarrow> string list \<times> toolResult list \<Rightarrow> js_error + string list \<times> toolResult list" where
  "collectUser msg acc =
     (case extractUserContent (msg_content msg) of
        Inl e \<Rightarrow> Inl e
      | Inr uc \<Rightarrow>
          Inr ((if uc_text uc \<noteq> [] then fst acc @ [uc_text uc] else fst acc),
               snd acc @ uc_toolResults uc))"

definition mergeUserMessages :: "message list \<Rightarrow> string \<Rightarrow> js_error + userInputMessage" where
  "mergeUserMessages msgs modelId =
     (case foldE collectUser msgs ([], []) of
        Inl e \<Rightarrow> Inl e
      | Inr (contentParts, allToolResults) \<Rightarrow>
          (let joined = joinWith nl contentParts;
               content = (if joined \<noteq> [] then joined
                          else if length allToolResults > 0 then ''continue'' else [])
           in Inr \<lparr>uim_content = content, uim_modelId = modelId, uim_origin = ''AI_EDITOR'',
                   uim_userInputMessageContext =
                     (if length allToolResults > 0
                      then Some \<lparr>ctx_tools = None, ctx_toolResults = Some allToolResults\<rparr>
                      else None)\<rparr>))"

subsection \<open>convertRequest\<close>

text \<open>The loop \<open>while (currentStart > 0 && messages[currentStart - 1].role === 'user')\<close>.\<close>

fun currentStartLoop :: "message list \<Rightarrow> nat \<Rightarrow> nat" where
  "currentStartLoop messages 0 = 0"
| "currentStartLoop messages (Suc n) =
     (if msg_role (messages ! n) = ''user'' then currentStartLoop messages n else Suc n)"

definition thinkingPrefixOf :: "anthropicReq \<Rightarrow> string option" where
  "thinkingPrefixOf req =
     (case req_thinking req of
        None \<Rightarrow> None
      | Some th \<Rightarrow>
          (if th_type th = ''enabled'' then
             (let budgetTokens = (case th_budget_tokens th of
                                    None \<Rightarrow> 10000
                                  | Some b \<Rightarrow> (if b = 0 then 10000 else b))
              in Some (''<thinking_mode>enabled</thinking_mode><max_thinking_length>''
                        @ showInt budgetTokens @ ''</max_thinking_length>''))
           else None))"

definition instructionPair :: "string \<Rightarrow> string \<Rightarrow> historyEntry list" where
  "instructionPair content modelId =
     [UserInputMessage \<lparr>uim_content = content, uim_modelId = modelId, uim_origin = ''AI_EDITOR'',
                         uim_userInputMessageContext = None\<rparr>,
      AssistantResponseMessage \<lparr>arm_content = ''I will follow these instructions.'',
                                 arm_toolUses = None\<rparr>]"

text \<open>The history entries pushed for the system prompt and the thinking prefix.\<close>

definition systemHistory ::
  "json \<Rightarrow> string option \<Rightarrow> string \<Rightarrow> js_error + historyEntry list" where
  "systemHistory sys thinkingPrefix modelId =
     (if truthy sys then
        (case (case sys of
                 JStr s \<Rightarrow> Inr s
               | JArr xs \<Rightarrow>
                   (if \<exists>x \<in> set xs. nullish x then Inl TypeError
                    else Inr (joinJs nl (map (\<lambda>x. propOf x ''text'') xs)))
               | _ \<Rightarrow> Inr []) of
           Inl e \<Rightarrow> Inl e
         | Inr systemContent \<Rightarrow>
             (if systemContent \<noteq> [] then
                (case thinkingPrefix of
                   Some p \<Rightarrow>
                     (if \<not> includesStr systemContent ''<thinking_mode>''
                         \<and> \<not> includesStr systemContent ''<max_thinking_length>''
                      then Inr (instructionPair (p @ nl @ systemContent) modelId)
                      else Inr (instructionPair systemContent modelId))
                 | None \<Rightarrow> Inr (instructionPair systemContent modelId))
              else Inr []))
      else (case thinkingPrefix of
              Some p \<Rightarrow> Inr (instructionPair p modelId)
            | None \<Rightarrow> Inr []))"

record walkState =
  ws_userBuffer :: "message list"
  ws_history :: "historyEntry list"
  ws_names :: toolNames

text \<open>One round of the loop that builds the history.\<close>

definition historyStep ::
  "(string \<Rightarrow> json option) \<Rightarrow> string \<Rightarrow> message \<Rightarrow> walkState \<Rightarrow> js_error + walkState" where
  "historyStep parse modelId msg st =
     (if msg_role msg = ''user'' then
        Inr (st\<lparr>ws_userBuffer := ws_userBuffer st @ [msg]\<rparr>)
      else if msg_role msg = ''assistant'' then
        (case (if length (ws_userBuffer st) > 0 then
                 (case mergeUserMessages (ws_userBuffer st) modelId of
                    Inl e \<Rightarrow> Inl e
                  | Inr mergedUser \<Rightarrow>
                      Inr (st\<lparr>ws_history := ws_history st @ [UserInputMessage mergedUser],
                              ws_userBuffer := []\<rparr>))
               else Inr st) of
           Inl e \<Rightarrow> Inl e
         | Inr st1 \<Rightarrow>
             (case extractAssistantContent parse (msg_content msg) (ws_names st1) of
                Inl e \<Rightarrow> Inl e
              | Inr (ac, nm) \<Rightarrow>
                  Inr (st1\<lparr>ws_history := ws_history st1 @
                             [AssistantResponseMessage
                                \<lparr>arm_content = ac_text ac,
                                 arm_toolUses = (if length (ac_toolUses ac) > 0
                                                 then Some (ac_toolUses ac) else None)\<rparr>],
                           ws_names := nm\<rparr>)))
      else Inr st)"

text \<open>The tool definitions that pass the filter, named in order.\<close>

fun buildTools ::
  "(string \<Rightarrow> json option) \<Rightarrow> toolDef list \<Rightarrow> toolNames \<Rightarrow> toolSpecification list \<times> toolNames" where
  "buildTools parse [] nm = ([], nm)"
| "buildTools parse (t # ts) nm =
     (let (kiroName, nm1) = getOrCreateKiroToolName (td_name t) nm;
          spec = \<lparr>ts_name = kiroName,
                  ts_description = take 10000 (case td_description t of Some d \<Rightarrow> d | None \<Rightarrow> []),
                  ts_inputSchema = normalizeJsonObject parse (orElse (td_input_schema t) (JObj []))\<rparr>;
          (specs, nm2) = buildTools parse ts nm1
      in (spec # specs, nm2))"

definition chatTriggerTypeOf :: "anthropicReq \<Rightarrow> string" where
  "chatTriggerTypeOf req =
     (case req_tools req of
        None \<Rightarrow> ''MANUAL''
      | Some ts \<Rightarrow>
          (if length ts > 0 then
             (case req_tool_choice req of
                None \<Rightarrow> ''MANUAL''
              | Some tcType \<Rightarrow> (if tcType = ''any'' \<or> tcType = ''tool'' then ''AUTO'' else ''MANUAL''))
           else ''MANUAL''))"

text \<open>
  \<open>convertRequest(anthropicReq)\<close>. The two calls of \<open>uuidv4()\<close> return \<open>uuid1\<close> and \<open>uuid2\<close>.
  The result is the envelope and the tool-name map.
\<close>

definition convertRequest ::
  "kiroClient \<Rightarrow> string \<Rightarrow> string \<Rightarrow> anthropicReq \<Rightarrow> js_error + kiroRequest \<times> (string \<times> string) list" where
  "convertRequest cl uuid1 uuid2 req =
     (case mapModel cl (req_model req) of
        None \<Rightarrow> Inl (UnsupportedModel (req_model req))
      | Some modelId \<Rightarrow>
          (if modelId = [] then Inl (UnsupportedModel (req_model req))
           else if length (req_messages req) = 0 then Inl EmptyMessages
           else
             (let messages = req_messages req;
                  conversationId = uuid1;
                  agentContinuationId = uuid2;
                  currentStart = currentStartLoop messages (length messages);
                  currentUserMessages = drop currentStart messages;
                  endsWithAssistant =
                    (length currentUserMessages = 0 \<and> length messages > 0
                     \<and> msg_role (messages ! (length messages - 1)) = ''assistant'');
                  thinkingPrefix = thinkingPrefixOf req;
                  historyEnd = (if endsWithAssistant then length messages else currentStart)
              in
              bindE (systemHistory (req_system req) thinkingPrefix modelId) (\<lambda>history0.
              bindE (foldE (historyStep (jsonParse cl) modelId) (take historyEnd messages)
                       \<lparr>ws_userBuffer = [], ws_history = history0,
                        ws_names = \<lparr>toolNameMap = [], usedToolNames = []\<rparr>\<rparr>) (\<lambda>st.
              bindE (if length (ws_userBuffer st) > 0
                     then bindE (mergeUserMessages (ws_userBuffer st) modelId) (\<lambda>mergedUser.
                            Inr (ws_history st @
                                   [UserInputMessage mergedUser,
                                    AssistantResponseMessage
                                      \<lparr>arm_content = ''OK'', arm_toolUses = None\<rparr>]))
                     else Inr (ws_history st)) (\<lambda>hist.
              bindE (if endsWithAssistant then Inr (''continue'', [])
                     else bindE (foldE collectUser currentUserMessages ([], []))
                            (\<lambda>(textParts, allToolResults).
                               Inr (if joinWith nl textParts \<noteq> [] then joinWith nl textParts
                                    else ''continue'', allToolResults)))
                (\<lambda>(currentText, allToolResults).
              (let (tools, names) =
                     buildTools (jsonParse cl)
                       (filter (\<lambda>t. \<not> isUnsupportedTool (td_name t))
                          (case req_tools req of Some ts \<Rightarrow> ts | None \<Rightarrow> []))
                       (ws_names st);
                   userInputMessageContext =
                     \<lparr>ctx_tools = (if length tools > 0 then Some tools else None),
                      ctx_toolResults =
                        (if length allToolResults > 0 then Some allToolResults else None)\<rparr>;
                   chatTrigger = chatTriggerTypeOf req
               in Inr (\<lparr>kr_conversationState =
                           \<lparr>agentContinuationId = agentContinuationId,
                            agentTaskType = ''vibe'',
                            chatTriggerType = chatTrigger,
                            currentMessage =
                              \<lparr>uim_content = currentText, uim_modelId = modelId,
                               uim_origin = ''AI_EDITOR'',
                               uim_userInputMessageContext =
                                 (if length tools > 0 \<or> length allToolResults > 0
                                  then Some userInputMessageContext else None)\<rparr>,
                            conversationId = conversationId,
                            history = hist\<rparr>,
                         kr_profileArn =
                           (case cred_profileArn cl of
                              Some a \<Rightarrow> (if a \<noteq> [] then Some a else None)
                            | None \<Rightarrow> None)\<rparr>,
                       toolNameMap names)))))))))"


section \<open>The request-debug summary and callApiStream\<close>

subsection \<open>summarizeForDebug\<close>

text \<open>
  The assignment \<open>out[k] = v\<close> on the summary object. It creates the own property \<open>k\<close>, or
  overwrites it in place when it exists already (\<open>AList.update\<close>), for every key but one:
  \<open>out['__proto__'] = v\<close> runs the setter inherited from \<open>Object.prototype\<close>, which at
  most replaces the prototype of \<open>out\<close> (when \<open>v\<close> is an object or \<open>null\<close>) and creates no
  own property. A value of the model is the list of own properties, so that assignment
  leaves it unchanged; the prototype is not part of the model. The keys of an object are
  pairwise different, so \<open>__proto__\<close> is assigned at most once, and the later assignments,
  which are to writable data properties, are not affected by the replaced prototype.
\<close>

definition protoKey :: string where
  "protoKey = ''__proto__''"

definition assignProp :: "string \<Rightarrow> json \<Rightarrow> (string \<times> json) list \<Rightarrow> (string \<times> json) list" where
  "assignProp k v out = (if k = protoKey then out else AList.update k v out)"

definition maxDepthMark :: string where
  "maxDepthMark = ''[MaxDepth]''"

definition stringTag :: "nat \<Rightarrow> string" where
  "stringTag n = ''<string len='' @ showNat n @ ''>''"

text \<open>
  The recursion descends only while \<open>depth \<le> 6\<close>, which is also why it ends on every
  value: the measure is \<open>7 - depth\<close>.
\<close>

function summarizeForDebug :: "json \<Rightarrow> nat \<Rightarrow> json" where
  "summarizeForDebug v depth =
     (if depth > 6 then JStr maxDepthMark
      else case v of
        JNull \<Rightarrow> JNull
      | JStr s \<Rightarrow> JStr (stringTag (length s))
      | JNum n \<Rightarrow> JNum n
      | JBool b \<Rightarrow> JBool b
      | JUndefined \<Rightarrow> JStr ''<undefined>''
      | JArr xs \<Rightarrow>
          JObj [(''_type'', JStr ''array''),
                (''length'', JNum (int (length xs))),
                (''sample'', JArr (map (\<lambda>x. summarizeForDebug x (depth + 1)) (take 3 xs)))]
      | JObj kvs \<Rightarrow>
          JObj (fold (\<lambda>k out. assignProp k
                                  (summarizeForDebug (propOf (JObj kvs) k) (depth + 1)) out)
                  (take 60 (map fst kvs))
                  [(''_type'', JStr ''object''),
                   (''keys'', JArr (map JStr (take 60 (map fst kvs))))]))"
  by pat_completeness auto
termination
  by (relation "measure (\<lambda>(v, depth). 7 - depth)") auto

declare summarizeForDebug.simps [simp del]

subsection \<open>The envelope as the JavaScript object that convertRequest builds\<close>

definition toolResult_json :: "toolResult \<Rightarrow> json" where
  "toolResult_json r =
     JObj [(''toolUseId'', tr_toolUseId r),
           (''status'', JStr (tr_status r)),
           (''content'', JArr (map (\<lambda>t. JObj [(''text'', JStr t)]) (tr_content r)))]"

definition toolUse_json :: "toolUse \<Rightarrow> json" where
  "toolUse_json u =
     JObj [(''toolUseId'', tu_toolUseId u), (''name'', JStr (tu_name u)), (''input'', tu_input u)]"

definition toolSpecification_json :: "toolSpecification \<Rightarrow> json" where
  "toolSpecification_json t =
     JObj [(''toolSpecification'',
            JObj [(''name'', JStr (ts_name t)),
                  (''description'', JStr (ts_description t)),
                  (''inputSchema'', JObj [(''json'', ts_inputSchema t)])])]"

definition context_json :: "userInputMessageContext \<Rightarrow> json" where
  "context_json c =
     JObj ((case ctx_tools c of
              Some ts \<Rightarrow> [(''tools'', JArr (map toolSpecification_json ts))]
            | None \<Rightarrow> [])
           @ (case ctx_toolResults c of
                Some rs \<Rightarrow> [(''toolResults'', JArr (map toolResult_json rs))]
              | None \<Rightarrow> []))"

definition userInputMessage_json :: "userInputMessage \<Rightarrow> json" where
  "userInputMessage_json m =
     JObj ([(''content'', JStr (uim_content m)),
            (''modelId'', JStr (uim_modelId m)),
            (''origin'', JStr (uim_origin m))]
           @ (case uim_userInputMessageContext m of
                Some c \<Rightarrow> [(''userInputMessageContext'', context_json c)]
              | None \<Rightarrow> []))"

definition assistantResponseMessage_json :: "assistantResponseMessage \<Rightarrow> json" where
  "assistantResponseMessage_json m =
     JObj ([(''content'', JStr (arm_content m))]
           @ (case arm_toolUses m of
                Some us \<Rightarrow> [(''toolUses'', JArr (map toolUse_json us))]
              | None \<Rightarrow> []))"

fun historyEntry_json :: "historyEntry \<Rightarrow> json" where
  "historyEntry_json (UserInputMessage m) = JObj [(''userInputMessage'', userInputMessage_json m)]"
| "historyEntry_json (AssistantResponseMessage m) =
     JObj [(''assistantResponseMessage'', assistantResponseMessage_json m)]"

definition conversationState_json :: "conversationState \<Rightarrow> json" where
  "conversationState_json cs =
     JObj [(''agentContinuationId'', JStr (agentContinuationId cs)),
           (''agentTaskType'', JStr (agentTaskType cs)),
           (''chatTriggerType'', JStr (chatTriggerType cs)),
           (''currentMessage'',
              JObj [(''userInputMessage'', userInputMessage_json (currentMessage cs))]),
           (''conversationId'', JStr (conversationId cs)),
           (''history'', JArr (map historyEntry_json (history cs)))]"

definition kiroRequest_json :: "kiroRequest \<Rightarrow> json" where
  "kiroRequest_json r =
     JObj ([(''conversationState'', conversationState_json (kr_conversationState r))]
           @ (case kr_profileArn r of Some a \<Rightarrow> [(''profileArn'', JStr a)] | None \<Rightarrow> []))"

subsection \<open>buildHeaders and callApiStream\<close>

definition orDefault :: "string option \<Rightarrow> string \<Rightarrow> string" where
  "orDefault x d = (case x of Some s \<Rightarrow> (if s \<noteq> [] then s else d) | None \<Rightarrow> d)"

text \<open>
  \<open>buildHeaders(token)\<close>; \<open>invocationId\<close> is the fresh UUID and \<open>randomHex\<close> the 32 random
  bytes in hex that stand in for a missing machine id.
\<close>

definition buildHeaders :: "kiroClient \<Rightarrow> string \<Rightarrow> string \<Rightarrow> string \<Rightarrow> (string \<times> string) list" where
  "buildHeaders cl invocationId randomHex token =
     (let region = orDefault (cfg_region cl) ''us-east-1'';
          kiroVersion = orDefault (cfg_kiroVersion cl) ''0.8.0'';
          machineId = orDefault (cred_machineId cl) randomHex;
          osName = ''windows'';
          nodeVersion = ''20.0.0'';
          xAmzUserAgent = ''aws-sdk-js/1.0.27 KiroIDE-'' @ kiroVersion @ ''-'' @ machineId;
          userAgent = ''aws-sdk-js/1.0.27 ua/2.1 os/'' @ osName @ '' lang/js md/nodejs#''
             @ nodeVersion @ '' api/codewhispererstreaming#1.0.27 m/E KiroIDE-'' @ kiroVersion
             @ ''-'' @ machineId
      in [(''Content-Type'', ''application/json''),
          (''x-amzn-codewhisperer-optout'', ''true''),
          (''x-amzn-kiro-agent-mode'', ''vibe''),
          (''x-amz-user-agent'', xAmzUserAgent),
          (''User-Agent'', userAgent),
          (''Host'', ''q.'' @ region @ ''.amazonaws.com''),
          (''amz-sdk-invocation-id'', invocationId),
          (''amz-sdk-request'', ''attempt=1; max=3''),
          (''Authorization'', ''Bearer '' @ token),
          (''Connection'', ''close'')])"

record response =
  resp_ok :: bool
  resp_status :: nat
  resp_text :: string

text \<open>
  What \<open>callApiStream\<close> asks of its collaborators, in the order it asks: the token manager
  for a valid token, and \<open>fetch\<close> with the URL, the headers, the envelope that is the body,
  and the proxy agent if there is one. The function has no other effect; in particular it
  writes no log row.
\<close>

datatype call =
    EnsureValidToken
  | Fetch string "(string \<times> string) list" json "string option"

datatype api_error =
    TokenError string
  | TranslationError js_error
  | TransportError string
  | KiroApiError nat string json

text \<open>
  The collaborators' answers: \<open>tokenResult\<close> is what \<open>ensureValidToken()\<close> settles to
  (\<open>Inl\<close> when it rejects), \<open>fetchResult\<close> is what \<open>fetch\<close> settles to, and
  \<open>proxyAgentLoads\<close> says whether the optional proxy module can be imported.
\<close>

record collaborators =
  tokenResult :: "string + string"
  fetchResult :: "string \<Rightarrow> (string \<times> string) list \<Rightarrow> json \<Rightarrow> string option \<Rightarrow> string + response"
  proxyAgentLoads :: bool
  uuidConversation :: string
  uuidContinuation :: string
  uuidInvocation :: string
  randomMachineId :: string

definition callApiStream ::
  "kiroClient \<Rightarrow> collaborators \<Rightarrow> anthropicReq
     \<Rightarrow> call list \<times> (api_error + response \<times> (string \<times> string) list)" where
  "callApiStream cl env anthropicReq =
     (case tokenResult env of
        Inl msg \<Rightarrow> ([EnsureValidToken], Inl (TokenError msg))
      | Inr token \<Rightarrow>
          (let region = orDefault (cfg_region cl) ''us-east-1'';
               url = ''https://q.'' @ region @ ''.amazonaws.com/generateAssistantResponse''
           in case convertRequest cl (uuidConversation env) (uuidContinuation env) anthropicReq of
                Inl e \<Rightarrow> ([EnsureValidToken], Inl (TranslationError e))
              | Inr (kiroReq, nameMap) \<Rightarrow>
                  (let headers = buildHeaders cl (uuidInvocation env) (randomMachineId env) token;
                       requestDebug = summarizeForDebug (kiroRequest_json kiroReq) 0;
                       agent = (case cfg_proxyUrl cl of
                                  Some p \<Rightarrow> (if p \<noteq> [] \<and> proxyAgentLoads env then Some p else None)
                                | None \<Rightarrow> None);
                       calls = [EnsureValidToken, Fetch url headers (kiroRequest_json kiroReq) agent]
                   in case fetchResult env url headers (kiroRequest_json kiroReq) agent of
                        Inl msg \<Rightarrow> (calls, Inl (TransportError msg))
                      | Inr resp \<Rightarrow>
                          (if \<not> resp_ok resp
                           then (calls, Inl (KiroApiError (resp_status resp) (resp_text resp)
                                               requestDebug))
                           else (calls, Inr (resp, nameMap))))))"

subsection \<open>The text a value carries\<close>

text \<open>Every string that occurs in a value, as a string value or as a property name.\<close>

fun stringsOf :: "json \<Rightarrow> string set" where
  "stringsOf (JStr s) = {s}"
| "stringsOf (JArr xs) = (\<Union>x \<in> set xs. stringsOf x)"
| "stringsOf (JObj kvs) = fst ` set kvs \<union> (\<Union>p \<in> set kvs. stringsOf (snd p))"
| "stringsOf v = {}"

text \<open>The property names of the objects nested at most \<open>n\<close> levels below the top of a value.\<close>

fun keysWithin :: "nat \<Rightarrow> json \<Rightarrow> string set" where
  "keysWithin 0 v = (case v of JObj kvs \<Rightarrow> fst ` set kvs | _ \<Rightarrow> {})"
| "keysWithin (Suc n) v =
     (case v of
        JObj kvs \<Rightarrow> fst ` set kvs \<union> (\<Union>p \<in> set kvs. keysWithin n (snd p))
      | JArr xs \<Rightarrow> (\<Union>x \<in> set xs. keysWithin n x)
      | _ \<Rightarrow> {})"

text \<open>The strings the summary writes by itself: its own property names and its marks.\<close>

definition summaryMarkers :: "string set" where
  "summaryMarkers =
     {''_type'', ''array'', ''object'', ''length'', ''sample'', ''keys'', ''<undefined>'',
      maxDepthMark} \<union> range stringTag"

text \<open>The property names that the object literals of \<open>convertRequest\<close> write.\<close>

definition envelopeFieldNames :: "string set" where
  "envelopeFieldNames =
     {''conversationState'', ''profileArn'', ''agentContinuationId'', ''agentTaskType'',
      ''chatTriggerType'', ''currentMessage'', ''conversationId'', ''history'',
      ''userInputMessage'', ''assistantResponseMessage'', ''content'', ''modelId'', ''origin'',
      ''userInputMessageContext'', ''tools'', ''toolResults'', ''toolUses'',
      ''toolSpecification'', ''toolUseId'', ''status'', ''name'', ''input''}"


section \<open>Example inputs and auxiliary notions\<close>

text \<open>
  A client without a model table and without credentials beyond the token, whose
  \<open>JSON.parse\<close> is never reached in the examples (no tool input is a string).
\<close>

definition demoClient :: kiroClient where
  "demoClient =
     \<lparr>dbManager = None, jsonParse = (\<lambda>s. None), cfg_region = None, cfg_kiroVersion = None,
      cfg_proxyUrl = None, cred_machineId = None, cred_profileArn = None\<rparr>"

definition demoRequest :: "message list \<Rightarrow> toolDef list option \<Rightarrow> anthropicReq" where
  "demoRequest ms ts =
     \<lparr>req_model = ''claude-3-5-sonnet-latest'', req_system = JUndefined, req_messages = ms,
      req_tools = ts, req_tool_choice = None, req_thinking = None\<rparr>"

definition textMessage :: "string \<Rightarrow> string \<Rightarrow> message" where
  "textMessage r s = \<lparr>msg_role = r, msg_content = JStr s\<rparr>"

text \<open>A user turn followed by two assistant turns.\<close>

definition twoAssistantsRequest :: anthropicReq where
  "twoAssistantsRequest =
     demoRequest [textMessage ''user'' ''a'', textMessage ''assistant'' ''b'',
                  textMessage ''assistant'' ''c''] None"

text \<open>The tool-result-threading scenario of the specification.\<close>

definition threadingRequest :: anthropicReq where
  "threadingRequest =
     demoRequest
       [\<lparr>msg_role = ''user'',
         msg_content = JArr [JObj [(''type'', JStr ''text''), (''text'', JStr ''run'')]]\<rparr>,
        \<lparr>msg_role = ''assistant'',
         msg_content =
           JArr [JObj [(''type'', JStr ''text''), (''text'', JStr ''calling'')],
                 JObj [(''type'', JStr ''tool_use''), (''id'', JStr ''T1''),
                       (''name'', JStr ''web.search!''),
                       (''input'', JObj [(''q'', JStr ''hi'')])]]\<rparr>,
        \<lparr>msg_role = ''user'',
         msg_content =
           JArr [JObj [(''type'', JStr ''tool_result''), (''tool_use_id'', JStr ''T1''),
                       (''content'', JStr ''42'')]]\<rparr>]
       None"

text \<open>The collision scenario: two tool definitions, \<open>a!\<close> and then \<open>a?\<close>.\<close>

definition collisionRequest :: anthropicReq where
  "collisionRequest =
     demoRequest [textMessage ''user'' ''hi'']
       (Some [\<lparr>td_name = ''a!'', td_description = None, td_input_schema = JUndefined\<rparr>,
              \<lparr>td_name = ''a?'', td_description = None, td_input_schema = JUndefined\<rparr>])"

definition emptyRequest :: anthropicReq where
  "emptyRequest = demoRequest [] None"

definition noNames :: toolNames where
  "noNames = \<lparr>toolNameMap = [], usedToolNames = []\<rparr>"

definition demoResponse :: response where
  "demoResponse = \<lparr>resp_ok = True, resp_status = 200, resp_text = []\<rparr>"

text \<open>Collaborators that succeed: the token manager has a token and upstream answers 200.\<close>

definition demoCollaborators :: collaborators where
  "demoCollaborators =
     \<lparr>tokenResult = Inr ''token'',
      fetchResult = (\<lambda>url headers body agent. Inr demoResponse),
      proxyAgentLoads = False,
      uuidConversation = ''uuid-1'', uuidContinuation = ''uuid-2'', uuidInvocation = ''uuid-3'',
      randomMachineId = ''00''\<rparr>"

text \<open>The tool uses of a history entry (none on a user turn).\<close>

fun toolUsesOf :: "historyEntry \<Rightarrow> toolUse list" where
  "toolUsesOf (UserInputMessage m) = []"
| "toolUsesOf (AssistantResponseMessage m) = (case arm_toolUses m of Some us \<Rightarrow> us | None \<Rightarrow> [])"

text \<open>The history of a translation result (empty when the translation raised).\<close>

definition historyOf :: "js_error + kiroRequest \<times> (string \<times> string) list \<Rightarrow> historyEntry list" where
  "historyOf r = (case r of Inl e \<Rightarrow> [] | Inr (k, m) \<Rightarrow> history (kr_conversationState k))"

text \<open>A translation result with its two generated identifiers replaced.\<close>

definition withIds ::
  "string \<Rightarrow> string \<Rightarrow> js_error + kiroRequest \<times> (string \<times> string) list
     \<Rightarrow> js_error + kiroRequest \<times> (string \<times> string) list" where
  "withIds c a r =
     (case r of
        Inl e \<Rightarrow> Inl e
      | Inr (k, m) \<Rightarrow>
          Inr (k\<lparr>kr_conversationState :=
                    (kr_conversationState k)\<lparr>conversationId := c, agentContinuationId := a\<rparr>\<rparr>,
               m))"

text \<open>A request whose model no rule maps.\<close>

definition unknownModelRequest :: anthropicReq where
  "unknownModelRequest = (demoRequest [textMessage ''user'' ''hi''] None)\<lparr>req_model := ''gpt''\<rparr>"

text \<open>The envelope that the tool-result-threading scenario translates to.\<close>

definition threadingEnvelope :: kiroRequest where
  "threadingEnvelope =
     \<lparr>kr_conversationState =
        \<lparr>agentContinuationId = ''uuid-2'', agentTaskType = ''vibe'',
         chatTriggerType = ''MANUAL'',
         currentMessage =
           \<lparr>uim_content = ''continue'', uim_modelId = ''claude-sonnet-4.5'',
            uim_origin = ''AI_EDITOR'',
            uim_userInputMessageContext =
              Some \<lparr>ctx_tools = None,
                    ctx_toolResults =
                      Some [\<lparr>tr_toolUseId = JStr ''T1'', tr_status = ''success'',
                             tr_content = [''42'']\<rparr>]\<rparr>\<rparr>,
         conversationId = ''uuid-1'',
         history =
           [UserInputMessage
              \<lparr>uim_content = ''run'', uim_modelId = ''claude-sonnet-4.5'',
               uim_origin = ''AI_EDITOR'', uim_userInputMessageContext = None\<rparr>,
            AssistantResponseMessage
              \<lparr>arm_content = ''calling'',
               arm_toolUses =
                 Some [\<lparr>tu_toolUseId = JStr ''T1'', tu_name = ''web_search'',
                        tu_input = JObj [(''q'', JStr ''hi'')]\<rparr>]\<rparr>]\<rparr>,
      kr_profileArn = None\<rparr>"

text \<open>
  A history that alternates: user turn, assistant turn, and so on, ending with an
  assistant turn (so its length is even).
\<close>

fun alternates :: "historyEntry list \<Rightarrow> bool" where
  "alternates [] = True"
| "alternates (UserInputMessage u # AssistantResponseMessage a # rest) = alternates rest"
| "alternates es = False"

text \<open>
  A message list in which every assistant message answers a user message: since the
  previous assistant message (or the start, or \<open>pending\<close>) there has been at least one
  user message. Messages of any other role are skipped, as the translator skips them.
\<close>

fun answersUser :: "bool \<Rightarrow> message list \<Rightarrow> bool" where
  "answersUser pending [] = True"
| "answersUser pending (m # ms) =
     (if msg_role m = ''user'' then answersUser True ms
      else if msg_role m = ''assistant'' then pending \<and> answersUser False ms
      else answersUser pending ms)"


section \<open>Properties of the account pool\<close>

lemma leastUsed_mem: "leastUsed st r rs \<in> set (r # rs)"
  unfolding leastUsed_def
proof (induction rs arbitrary: r)
  case Nil
  show ?case by simp
next
  case (Cons b rs)
  have "foldl (\<lambda>a b. if requestCount (st ! a) < requestCount (st ! b) then a else b)
          (if requestCount (st ! r) < requestCount (st ! b) then r else b) rs
        \<in> set ((if requestCount (st ! r) < requestCount (st ! b) then r else b) # rs)"
    by (rule Cons.IH)
  then show ?case by (auto split: if_splits)
qed

lemma pick_mem:
  assumes "av \<noteq> []" and "pick u s av = (Inr r, s1)"
  shows "r \<in> set av \<and> store s1 = store s \<and> tokenManagers s1 = tokenManagers s
         \<and> accounts s1 = accounts s"
proof (cases "strategy s = ''random''")
  case True
  define i where "i = \<lfloor>u * real (length av)\<rfloor>"
  from assms True have rng: "0 \<le> i \<and> i < int (length av)" and r: "r = av ! nat i"
    and s1: "s1 = s"
    by (auto simp: pick_def Let_def i_def split: if_splits)
  from rng have "nat i < length av" by linarith
  then have "av ! nat i \<in> set av" by (rule nth_mem)
  with r s1 show ?thesis by simp
next
  case notrandom: False
  show ?thesis
  proof (cases "strategy s = ''least-used''")
    case True
    have "leastUsed (store s) (hd av) (tl av) \<in> set (hd av # tl av)"
      by (rule leastUsed_mem)
    with assms notrandom True show ?thesis
      by (auto simp: pick_def)
  next
    case False
    with assms notrandom show ?thesis
      by (auto simp: pick_def)
  qed
qed

lemma available_active: "r \<in> set (available s) \<Longrightarrow> status (store s ! r) = Active"
  by (simp add: available_def)

lemma available_listed: "r \<in> set (available s) \<Longrightarrow> r \<in> snd ` set (accounts s)"
  by (auto simp: available_def)

lemma cooldownTimeout_status:
  "r < length (store t) \<Longrightarrow>
   status (store (cooldownTimeout r' t) ! r) =
     (if r' = r \<and> status (store t ! r) = Cooldown then Active else status (store t ! r))"
  by (cases "r' = r") (simp_all add: cooldownTimeout_def)

lemma cooldownTimeout_length: "length (store (cooldownTimeout r' t)) = length (store t)"
  by (simp add: cooldownTimeout_def)

lemma cooldownTimeout_accounts: "accounts (cooldownTimeout r' t) = accounts t"
  by (simp add: cooldownTimeout_def)

lemma cooldownTimeout_timers: "timers (cooldownTimeout r' t) = timers t"
  by (simp add: cooldownTimeout_def)

lemma fold_timeouts_status:
  "r < length (store t) \<Longrightarrow>
   status (store (fold (\<lambda>(d, r). cooldownTimeout r) ts t) ! r) =
     (if r \<in> snd ` set ts \<and> status (store t ! r) = Cooldown then Active else status (store t ! r))"
proof (induction ts arbitrary: t)
  case Nil
  show ?case by simp
next
  case (Cons p ts)
  obtain d r' where p: "p = (d, r')" by (cases p)
  have len: "r < length (store (cooldownTimeout r' t))"
    using Cons.prems by (simp add: cooldownTimeout_length)
  show ?case
    using Cons.IH [OF len] Cons.prems
    by (auto simp: p cooldownTimeout_status)
qed

lemma fold_timeouts_accounts: "accounts (fold (\<lambda>(d, r). cooldownTimeout r) ts t) = accounts t"
  by (induction ts arbitrary: t) (auto simp: cooldownTimeout_accounts)

lemma fold_timeouts_timers: "timers (fold (\<lambda>(d, r). cooldownTimeout r) ts t) = timers t"
  by (induction ts arbitrary: t) (auto simp: cooldownTimeout_timers)

lemma runTimers_status:
  assumes "r < length (store t)"
  shows "status (store (runTimers c t) ! r) =
     (if (\<exists>d \<le> c. (d, r) \<in> set (timers t)) \<and> status (store t ! r) = Cooldown then Active
      else status (store t ! r))"
proof -
  have "r < length (store (t\<lparr>timers := filter (\<lambda>(d, r). \<not> d \<le> c) (timers t)\<rparr>))"
    using assms by simp
  from fold_timeouts_status [OF this, of "filter (\<lambda>(d, r). d \<le> c) (timers t)"]
  show ?thesis
    unfolding runTimers_def by (auto simp: image_iff)
qed

lemma runTimers_accounts: "accounts (runTimers c t) = accounts t"
  by (simp add: runTimers_def fold_timeouts_accounts)

lemma runTimers_timers: "timers (runTimers c t) = filter (\<lambda>(d, r). \<not> d \<le> c) (timers t)"
  by (simp add: runTimers_def fold_timeouts_timers)

lemma recordError_rateLimit:
  assumes "map_of (accounts s) i = Some r" and "r < length (store s)"
  shows "status (store (recordError clock i True s) ! r) = Cooldown"
    and "timers (recordError clock i True s) = timers s @ [(clock + 300000, r)]"
    and "length (store (recordError clock i True s)) = length (store s)"
    and "accounts (recordError clock i True s) = accounts s"
  using assms by (simp_all add: recordError_def Let_def)

text \<open>
  Claim C8. Whatever the pool and its strategy (\<open>random\<close> with any draw, \<open>least-used\<close>,
  or anything else, which is round-robin), an account returned by \<open>selectAccount\<close> is one
  of the roster whose status is \<open>active\<close>, before and after the call; so it is never an
  invalid, disabled or cooling account. When the roster has no active account the result is
  \<open>null\<close> and the pool is unchanged.
\<close>

theorem selectAccount_only_active:
  "(\<forall>sel. fst (selectAccount u now s) = Inr (Some sel) \<longrightarrow>
      (\<exists>r \<in> snd ` set (accounts s).
         status (store s ! r) = Active \<and>
         status (store (snd (selectAccount u now s)) ! r) = Active \<and>
         sel_id sel = acc_id (store s ! r) \<and> sel_name sel = acc_name (store s ! r)))
   \<and> ((\<forall>r \<in> snd ` set (accounts s). status (store s ! r) \<noteq> Active) \<longrightarrow>
        selectAccount u now s = (Inr None, s))"
proof (intro conjI allI impI)
  fix sel
  assume res: "fst (selectAccount u now s) = Inr (Some sel)"
  define av where "av = available s"
  from res have ne: "av \<noteq> []"
    by (auto simp: selectAccount_def av_def)
  obtain x s1 where pk: "pick u s av = (x, s1)" by (cases "pick u s av")
  from res ne pk obtain r where x: "x = Inr r"
    by (cases x) (auto simp: selectAccount_def av_def [symmetric])
  from pick_mem [OF ne pk [unfolded x]]
  have r: "r \<in> set av" and st: "store s1 = store s" by simp_all
  have act: "status (store s ! r) = Active"
    using r available_active unfolding av_def by blast
  have listed: "r \<in> snd ` set (accounts s)"
    using r available_listed unfolding av_def by blast
  have sel: "sel = \<lparr>sel_id = acc_id (store s ! r), sel_name = acc_name (store s ! r),
       sel_tokenManager = map_of (tokenManagers s1) (acc_id (store s ! r))\<rparr>"
    and post: "store (snd (selectAccount u now s)) =
       (store s)[r := (store s ! r)\<lparr>requestCount := requestCount (store s ! r) + 1,
                                     lastUsedAt := Some now\<rparr>]"
    using res ne pk x st by (auto simp: selectAccount_def av_def [symmetric] Let_def)
  have "status (store (snd (selectAccount u now s)) ! r) = Active"
    unfolding post using act by (cases "r < length (store s)") (simp_all add: list_update_beyond)
  with act listed sel
  show "\<exists>r \<in> snd ` set (accounts s).
         status (store s ! r) = Active \<and>
         status (store (snd (selectAccount u now s)) ! r) = Active \<and>
         sel_id sel = acc_id (store s ! r) \<and> sel_name sel = acc_name (store s ! r)"
    by auto
next
  assume none: "\<forall>r \<in> snd ` set (accounts s). status (store s ! r) \<noteq> Active"
  then have "available s = []"
    by (auto simp: available_def filter_empty_conv)
  then show "selectAccount u now s = (Inr None, s)"
    by (simp add: selectAccount_def)
qed


text \<open>
  Claim C7. \<open>recordError\<close> with the rate-limit flag on an existing account leaves the
  account in \<open>cooldown\<close> at once and schedules one timer, 5 minutes later, on that account
  object. In any later state in which that timer is still pending, once the clock has
  reached its due time the timer has fired and is gone: the account is \<open>active\<close> if
  its status was still \<open>cooldown\<close>, and otherwise its status is what it was (the
  transition is suppressed).
\<close>

theorem recordError_cooldown_timer:
  assumes "map_of (accounts s) i = Some r" and "r < length (store s)"
  shows "status (store (recordError clock i True s) ! r) = Cooldown
     \<and> timers (recordError clock i True s) = timers s @ [(clock + 5 * 60 * 1000, r)]
     \<and> (\<forall>t c. r < length (store t) \<and> (clock + 5 * 60 * 1000, r) \<in> set (timers t)
                \<and> clock + 5 * 60 * 1000 \<le> c \<longrightarrow>
            status (store (runTimers c t) ! r) =
              (if status (store t ! r) = Cooldown then Active else status (store t ! r))
            \<and> (clock + 5 * 60 * 1000, r) \<notin> set (timers (runTimers c t)))"
proof (intro conjI allI impI)
  show "status (store (recordError clock i True s) ! r) = Cooldown"
    using assms by (rule recordError_rateLimit(1))
  show "timers (recordError clock i True s) = timers s @ [(clock + 5 * 60 * 1000, r)]"
    using recordError_rateLimit(2) [OF assms] by simp
next
  fix t :: pool and c
  assume h: "r < length (store t) \<and> (clock + 5 * 60 * 1000, r) \<in> set (timers t)
             \<and> clock + 5 * 60 * 1000 \<le> c"
  then have "\<exists>d \<le> c. (d, r) \<in> set (timers t)" by blast
  with h show "status (store (runTimers c t) ! r) =
              (if status (store t ! r) = Cooldown then Active else status (store t ! r))"
    by (simp add: runTimers_status)
  from h show "(clock + 5 * 60 * 1000, r) \<notin> set (timers (runTimers c t))"
    by (simp add: runTimers_timers)
qed

theorem recordError_cooldown_timer_witness:
  "map_of (accounts demoPool) ''a2'' = Some (Suc 0) \<and> Suc 0 < length (store demoPool)
   \<and> status (store (recordError 1000 ''a2'' True demoPool) ! Suc 0) = Cooldown
   \<and> status (store (runTimers 301000 (recordError 1000 ''a2'' True demoPool)) ! Suc 0) = Active
   \<and> status (store (runTimers 301000
        (snd (disableAccount ''a2'' (recordError 1000 ''a2'' True demoPool)))) ! Suc 0) = Disabled"
proof -
  have h1: "map_of (accounts demoPool) ''a2'' = Some (Suc 0)" by (simp add: demoPool_def)
  have h2: "Suc 0 < length (store demoPool)" by (simp add: demoPool_def)
  note main = recordError_cooldown_timer [OF h1 h2, of 1000]
  define s1 where "s1 = recordError 1000 ''a2'' True demoPool"
  define s2 where "s2 = snd (disableAccount ''a2'' s1)"
  have cd: "status (store s1 ! Suc 0) = Cooldown"
    using main unfolding s1_def by blast
  have tm: "timers s1 = timers demoPool @ [(1000 + 5 * 60 * 1000, Suc 0)]"
    using main unfolding s1_def by blast
  have len1: "Suc 0 < length (store s1)"
    unfolding s1_def by (simp add: recordError_rateLimit(3) [OF h1 h2] h2)
  have pend1: "(1000 + 5 * 60 * 1000, Suc 0) \<in> set (timers s1)"
    unfolding tm by simp
  have s2: "status (store s2 ! Suc 0) = Disabled \<and> Suc 0 < length (store s2)
            \<and> (1000 + 5 * 60 * 1000, Suc 0) \<in> set (timers s2)"
    by (simp add: s2_def s1_def disableAccount_def setStatus_def recordError_def demoPool_def)
  have a: "status (store (runTimers 301000 s1) ! Suc 0) = Active"
    using main [THEN conjunct2, THEN conjunct2, rule_format, of s1 301000] cd pend1 len1
    by simp
  have b: "status (store (runTimers 301000 s2) ! Suc 0) = Disabled"
    using main [THEN conjunct2, THEN conjunct2, rule_format, of s2 301000] s2
    by simp
  from h1 h2 cd a b show ?thesis unfolding s1_def s2_def by blast
qed

text \<open>
  Claim C10. \<open>recordError\<close> with the rate-limit flag does not look at the prior status:
  whatever it was (also \<open>disabled\<close> or \<open>invalid\<close>), the account is in \<open>cooldown\<close>
  afterwards, and when the timer fires five minutes later with nothing in between, the
  account is \<open>active\<close> and among the accounts \<open>selectAccount\<close> chooses from.
\<close>

theorem rateLimit_revives_any_status:
  assumes "map_of (accounts s) i = Some r" and "r < length (store s)"
  shows "status (store (recordError clock i True s) ! r) = Cooldown
     \<and> status (store (runTimers (clock + 5 * 60 * 1000) (recordError clock i True s)) ! r) = Active
     \<and> r \<in> set (available (runTimers (clock + 5 * 60 * 1000) (recordError clock i True s)))"
proof -
  define s1 where "s1 = recordError clock i True s"
  have cd: "status (store s1 ! r) = Cooldown"
    unfolding s1_def using assms by (rule recordError_rateLimit(1))
  have len: "r < length (store s1)"
    using assms by (simp add: s1_def recordError_rateLimit(3))
  have tm: "(clock + 300000, r) \<in> set (timers s1)"
    using assms by (simp add: s1_def recordError_rateLimit(2))
  then have "\<exists>d \<le> clock + 300000. (d, r) \<in> set (timers s1)" by blast
  with cd have act: "status (store (runTimers (clock + 300000) s1) ! r) = Active"
    by (simp add: runTimers_status [OF len])
  have "(i, r) \<in> set (accounts s)"
    using assms(1) by (rule map_of_SomeD)
  then have "r \<in> snd ` set (accounts (runTimers (clock + 300000) s1))"
    using assms by (force simp: runTimers_accounts s1_def recordError_rateLimit(4))
  with act have "r \<in> set (available (runTimers (clock + 300000) s1))"
    by (simp add: available_def)
  with cd act show ?thesis by (simp add: s1_def)
qed

theorem rateLimit_revives_any_status_witness:
  "map_of (accounts demoPool) ''a1'' = Some 0 \<and> 0 < length (store demoPool)
   \<and> status (store demoPool ! 0) = Invalid
   \<and> status (store (runTimers 300000 (recordError 0 ''a1'' True demoPool)) ! 0) = Active
   \<and> (\<exists>s'. selectAccount 0 ''now'' (runTimers 300000 (recordError 0 ''a1'' True demoPool))
          = (Inr (Some \<lparr>sel_id = ''a1'', sel_name = ''first'', sel_tokenManager = Some ''c1''\<rparr>), s'))"
proof -
  have h1: "map_of (accounts demoPool) ''a1'' = Some 0" by (simp add: demoPool_def)
  have h2: "0 < length (store demoPool)" by (simp add: demoPool_def)
  have a: "status (store (runTimers 300000 (recordError 0 ''a1'' True demoPool)) ! 0) = Active"
    using rateLimit_revives_any_status [OF h1 h2, of 0] by simp
  have b: "\<exists>s'. selectAccount 0 ''now'' (runTimers 300000 (recordError 0 ''a1'' True demoPool))
          = (Inr (Some \<lparr>sel_id = ''a1'', sel_name = ''first'', sel_tokenManager = Some ''c1''\<rparr>), s')"
    by (simp add: selectAccount_def pick_def available_def runTimers_def recordError_def
          cooldownTimeout_def demoPool_def Let_def)
  from h1 h2 a b show ?thesis by (simp add: demoPool_def)
qed

theorem selectAccount_only_active_witness:
  "fst (selectAccount (1/2) ''now'' demoPool)
     = Inr (Some \<lparr>sel_id = ''a2'', sel_name = ''second'', sel_tokenManager = Some ''c2''\<rparr>)
   \<and> (\<exists>r \<in> snd ` set (accounts demoPool). status (store demoPool ! r) = Active
         \<and> acc_id (store demoPool ! r) = ''a2'')
   \<and> selectAccount (1/2) ''now'' (snd (disableAccount ''a2'' demoPool))
       = (Inr None, snd (disableAccount ''a2'' demoPool))"
proof -
  have a: "fst (selectAccount (1/2) ''now'' demoPool)
     = Inr (Some \<lparr>sel_id = ''a2'', sel_name = ''second'', sel_tokenManager = Some ''c2''\<rparr>)"
    by (simp add: selectAccount_def pick_def available_def demoPool_def Let_def)
  have b: "\<exists>r \<in> snd ` set (accounts demoPool). status (store demoPool ! r) = Active
         \<and> acc_id (store demoPool ! r) = ''a2''"
    using selectAccount_only_active [of "1/2" "''now''" demoPool, THEN conjunct1, rule_format, OF a]
    by auto
  have c: "\<forall>r \<in> snd ` set (accounts (snd (disableAccount ''a2'' demoPool))).
             status (store (snd (disableAccount ''a2'' demoPool)) ! r) \<noteq> Active"
    by (simp add: disableAccount_def setStatus_def demoPool_def)
  note d0 = selectAccount_only_active [of "1/2" "''now''" "snd (disableAccount ''a2'' demoPool)",
        THEN conjunct2, THEN mp]
  have d: "selectAccount (1/2) ''now'' (snd (disableAccount ''a2'' demoPool))
       = (Inr None, snd (disableAccount ''a2'' demoPool))"
    using c by (rule d0)
  from a b d show ?thesis by simp
qed

section \<open>Properties of the translation\<close>

subsection \<open>Evaluating the examples\<close>

lemmas string_defs = toLowerCase_def toLowerChar_def upperLetters_def lowerLetters_def
  digitChars_def isDigitChar_def isWordChar_def

lemma mapModel_demo: "mapModel demoClient ''claude-3-5-sonnet-latest'' = Some ''claude-sonnet-4.5''"
  by (simp add: mapModel_def demoClient_def string_defs)

lemma mapModel_unknown: "mapModel demoClient ''gpt'' = None"
  by (simp add: mapModel_def demoClient_def string_defs)

lemma sanitize_web: "sanitizeToolName ''web.search!'' = ''web_search''"
  by (simp add: sanitizeToolName_def trimUnderscores_def string_defs)

lemma sanitize_a_bang: "sanitizeToolName ''a!'' = ''a''"
  by (simp add: sanitizeToolName_def trimUnderscores_def string_defs)

lemma sanitize_a_query: "sanitizeToolName ''a?'' = ''a''"
  by (simp add: sanitizeToolName_def trimUnderscores_def string_defs)

lemma unsupported_web_raw: "isUnsupportedTool ''web.search!'' = False"
  by (simp add: isUnsupportedTool_def string_defs)

lemma unsupported_web_sanitized: "isUnsupportedTool ''web_search'' = True"
  by (simp add: isUnsupportedTool_def string_defs)

lemma unsupported_a: "isUnsupportedTool ''a!'' = False" "isUnsupportedTool ''a?'' = False"
  by (simp_all add: isUnsupportedTool_def string_defs)

lemmas eval_defs = convertRequest_def bindE_def historyStep_def mergeUserMessages_def
  collectUser_def extractUserContent_def extractAssistantContent_def assistantBlock_def
  userBlock_def resultContent_def finalText_def systemHistory_def thinkingPrefixOf_def
  chatTriggerTypeOf_def joinJs_def joinElem_def orElse_def nullish_def nl_def
  getOrCreateKiroToolName_def setAdd_def normalizeJsonObject_def demoRequest_def
  textMessage_def Let_def

lemma threading_translation:
  "convertRequest demoClient ''uuid-1'' ''uuid-2'' threadingRequest =
     Inr (threadingEnvelope, [(''web.search!'', ''web_search'')])"
  by (simp add: threadingRequest_def threadingEnvelope_def eval_defs
        mapModel_demo [unfolded demoClient_def] demoClient_def sanitize_web unsupported_web_raw)

subsection \<open>Alternation of the history\<close>

text \<open>
  Where every assistant message answers a user message, the history does alternate:
  the loop then flushes a non-empty user buffer before each assistant turn.
\<close>

lemma alternates_append_pair:
  "alternates h \<Longrightarrow> alternates (h @ [UserInputMessage u, AssistantResponseMessage a])"
  by (induction h rule: alternates.induct) simp_all

lemma bindE_InrD: "bindE m f = Inr y \<Longrightarrow> \<exists>x. m = Inr x \<and> f x = Inr y"
  by (cases m) (simp_all add: bindE_def)

lemma answersUser_take: "answersUser b ms \<Longrightarrow> answersUser b (take n ms)"
proof (induction ms arbitrary: n b)
  case Nil
  show ?case by simp
next
  case (Cons m ms)
  show ?case
  proof (cases n)
    case 0
    then show ?thesis by simp
  next
    case (Suc k)
    with Cons show ?thesis by (auto split: if_splits)
  qed
qed

lemma historyStep_alternates:
  assumes "historyStep parse modelId msg st = Inr st'"
    and "alternates (ws_history st)"
    and "answersUser (ws_userBuffer st \<noteq> []) (msg # ms)"
  shows "alternates (ws_history st') \<and> answersUser (ws_userBuffer st' \<noteq> []) ms"
proof (cases "msg_role msg = ''user''")
  case True
  with assms show ?thesis by (auto simp: historyStep_def)
next
  case notUser: False
  show ?thesis
  proof (cases "msg_role msg = ''assistant''")
    case False
    with notUser assms show ?thesis by (auto simp: historyStep_def)
  next
    case True
    with notUser assms(3) have pending: "ws_userBuffer st \<noteq> []" and rest: "answersUser False ms"
      by simp_all
    from assms(1) notUser True pending
    obtain u a where
      hist: "ws_history st' = ws_history st @ [UserInputMessage u, AssistantResponseMessage a]"
      and buf: "ws_userBuffer st' = []"
      by (auto simp: historyStep_def split: sum.splits)
    show ?thesis
      unfolding hist buf using assms(2) rest by (simp add: alternates_append_pair)
  qed
qed

lemma walk_alternates:
  "foldE (historyStep parse modelId) ms st = Inr st' \<Longrightarrow> alternates (ws_history st)
   \<Longrightarrow> answersUser (ws_userBuffer st \<noteq> []) ms \<Longrightarrow> alternates (ws_history st')"
proof (induction ms arbitrary: st)
  case Nil
  then show ?case by simp
next
  case (Cons msg ms)
  from Cons.prems(1) obtain st1 where
    step: "historyStep parse modelId msg st = Inr st1"
    and rest: "foldE (historyStep parse modelId) ms st1 = Inr st'"
    by (auto split: sum.splits)
  from historyStep_alternates [OF step Cons.prems(2,3)]
  have "alternates (ws_history st1)" "answersUser (ws_userBuffer st1 \<noteq> []) ms"
    by simp_all
  with rest show ?case by (rule Cons.IH)
qed

lemma systemHistory_alternates:
  "systemHistory sys tp modelId = Inr h \<Longrightarrow> alternates h"
  by (auto simp: systemHistory_def instructionPair_def split: if_splits sum.splits option.splits)

lemma historyOf_Inl: "historyOf (Inl e) = []"
  by (simp add: historyOf_def)

lemma historyOf_Inr:
  "historyOf (Inr (\<lparr>kr_conversationState =
       \<lparr>agentContinuationId = u2, agentTaskType = t, chatTriggerType = g, currentMessage = cm,
        conversationId = u1, history = h\<rparr>, kr_profileArn = p\<rparr>, m)) = h"
  by (simp add: historyOf_def)

lemma historyOf_bindE:
  "historyOf (bindE m f) = (case m of Inl e \<Rightarrow> [] | Inr x \<Rightarrow> historyOf (f x))"
  by (cases m) (simp_all add: bindE_def historyOf_def)

lemma alternates_flush:
  assumes "alternates (ws_history st)"
  shows "case (if length (ws_userBuffer st) > 0
               then bindE (mergeUserMessages (ws_userBuffer st) modelId) (\<lambda>mergedUser.
                      Inr (ws_history st @
                             [UserInputMessage mergedUser,
                              AssistantResponseMessage \<lparr>arm_content = ''OK'', arm_toolUses = None\<rparr>]))
               else Inr (ws_history st)) of
           Inl e \<Rightarrow> True
         | Inr hist \<Rightarrow> alternates hist"
  using assms
  by (cases "mergeUserMessages (ws_userBuffer st) modelId")
     (simp_all add: bindE_def alternates_append_pair)

lemma history_alternates_when_answered:
  assumes wf: "answersUser False (req_messages req)"
  shows "alternates (historyOf (convertRequest cl u1 u2 req))"
proof -
  define n where "n = (if length (drop (currentStartLoop (req_messages req) (length (req_messages req)))
                                 (req_messages req)) = 0 \<and> length (req_messages req) > 0
                           \<and> msg_role (req_messages req ! (length (req_messages req) - 1)) = ''assistant''
                       then length (req_messages req)
                       else currentStartLoop (req_messages req) (length (req_messages req)))"
  have walk: "alternates (ws_history st)"
    if "systemHistory (req_system req) (thinkingPrefixOf req) modelId = Inr h0"
      and "foldE (historyStep (jsonParse cl) modelId) (take n (req_messages req))
              \<lparr>ws_userBuffer = [], ws_history = h0,
               ws_names = \<lparr>toolNameMap = [], usedToolNames = []\<rparr>\<rparr> = Inr st"
    for modelId h0 st
  proof (rule walk_alternates [OF that(2)])
    show "alternates (ws_history \<lparr>ws_userBuffer = [], ws_history = h0,
               ws_names = \<lparr>toolNameMap = [], usedToolNames = []\<rparr>\<rparr>)"
      using systemHistory_alternates [OF that(1)] by simp
    show "answersUser (ws_userBuffer \<lparr>ws_userBuffer = [], ws_history = h0,
               ws_names = \<lparr>toolNameMap = [], usedToolNames = []\<rparr>\<rparr> \<noteq> []) (take n (req_messages req))"
      using answersUser_take [OF wf, of n] by simp
  qed
  have flush: "alternates hist"
    if "systemHistory (req_system req) (thinkingPrefixOf req) modelId = Inr h0"
      and "foldE (historyStep (jsonParse cl) modelId) (take n (req_messages req))
              \<lparr>ws_userBuffer = [], ws_history = h0,
               ws_names = \<lparr>toolNameMap = [], usedToolNames = []\<rparr>\<rparr> = Inr st"
      and "(if length (ws_userBuffer st) > 0
            then bindE (mergeUserMessages (ws_userBuffer st) modelId) (\<lambda>mergedUser.
                   Inr (ws_history st @
                          [UserInputMessage mergedUser,
                           AssistantResponseMessage \<lparr>arm_content = ''OK'', arm_toolUses = None\<rparr>]))
            else Inr (ws_history st)) = Inr hist"
    for modelId h0 st hist
    using alternates_flush [OF walk [OF that(1,2)], of modelId] that(3) by simp
  show ?thesis
    unfolding convertRequest_def Let_def n_def [symmetric]
    apply (simp only: historyOf_bindE historyOf_Inl historyOf_Inr
        option.case_distrib [of historyOf] if_distrib [of historyOf] prod.case_distrib [of historyOf])
    apply (split option.split, intro conjI impI allI, simp)
    apply (split if_split, intro conjI impI, simp)
    apply (split if_split, intro conjI impI, simp)
    apply (split sum.split, intro conjI impI allI, simp)
    apply (split sum.split, intro conjI impI allI, simp)
    apply (split sum.split, intro conjI impI allI, simp)
    apply (split sum.split, intro conjI impI allI, simp)
    apply (simp only: split_beta)
    apply (erule (2) flush)
    done
qed

text \<open>
  Claim C1 says that the history of every accepted request alternates between user and
  assistant turns. The loop that builds the history merges a run of user messages into one
  turn, but pushes every assistant message as a turn of its own: for a user message
  followed by two assistant messages the history is user, assistant, assistant, of length
  three (and a request that starts with an assistant message gives a history that starts
  with an assistant turn). This theorem evaluates \<open>convertRequest\<close> on the first of
  these requests.
\<close>

theorem two_assistants_history:
  "convertRequest demoClient ''uuid-1'' ''uuid-2'' twoAssistantsRequest =
     Inr (\<lparr>kr_conversationState =
             \<lparr>agentContinuationId = ''uuid-2'', agentTaskType = ''vibe'',
              chatTriggerType = ''MANUAL'',
              currentMessage =
                \<lparr>uim_content = ''continue'', uim_modelId = ''claude-sonnet-4.5'',
                 uim_origin = ''AI_EDITOR'', uim_userInputMessageContext = None\<rparr>,
              conversationId = ''uuid-1'',
              history =
                [UserInputMessage
                   \<lparr>uim_content = ''a'', uim_modelId = ''claude-sonnet-4.5'',
                    uim_origin = ''AI_EDITOR'', uim_userInputMessageContext = None\<rparr>,
                 AssistantResponseMessage \<lparr>arm_content = ''b'', arm_toolUses = None\<rparr>,
                 AssistantResponseMessage \<lparr>arm_content = ''c'', arm_toolUses = None\<rparr>]\<rparr>,
           kr_profileArn = None\<rparr>,
          [])"
  by (simp add: twoAssistantsRequest_def eval_defs mapModel_demo [unfolded demoClient_def]
        demoClient_def)

subsection \<open>The unsupported-tool filter reads the original name\<close>

text \<open>
  Claim C2, as stated, fails: in the tool-result-threading scenario the tool use named
  \<open>web.search!\<close> is not dropped. The filter does not match the original name, and the
  assistant turn (the second history entry) carries the tool use.
\<close>

theorem threading_tool_use_kept_counterexample:
  "\<not> (isUnsupportedTool ''web.search!''
       \<or> toolUsesOf (historyOf (convertRequest demoClient ''uuid-1'' ''uuid-2'' threadingRequest)
                       ! Suc 0) = [])"
  by (simp add: threading_translation unsupported_web_raw historyOf_def threadingEnvelope_def)

text \<open>
  Claim C2, amended. In the scenario the name \<open>web.search!\<close> is sanitized to \<open>web_search\<close>,
  a name the filter would match; but the filter is applied to the original name, which it
  does not match. The tool use is therefore kept: the assistant turn of the envelope has
  the text \<open>calling\<close> and the tool use \<open>T1\<close> under the name \<open>web_search\<close>, the current
  message carries the tool result for \<open>T1\<close>, and the name map records
  \<open>web.search!\<close> as \<open>web_search\<close>.
\<close>

theorem threading_tool_use_kept:
  "sanitizeToolName ''web.search!'' = ''web_search''
   \<and> isUnsupportedTool ''web_search''
   \<and> \<not> isUnsupportedTool ''web.search!''
   \<and> convertRequest demoClient ''uuid-1'' ''uuid-2'' threadingRequest =
       Inr (\<lparr>kr_conversationState =
               \<lparr>agentContinuationId = ''uuid-2'', agentTaskType = ''vibe'',
                chatTriggerType = ''MANUAL'',
                currentMessage =
                  \<lparr>uim_content = ''continue'', uim_modelId = ''claude-sonnet-4.5'',
                   uim_origin = ''AI_EDITOR'',
                   uim_userInputMessageContext =
                     Some \<lparr>ctx_tools = None,
                           ctx_toolResults =
                             Some [\<lparr>tr_toolUseId = JStr ''T1'', tr_status = ''success'',
                                    tr_content = [''42'']\<rparr>]\<rparr>\<rparr>,
                conversationId = ''uuid-1'',
                history =
                  [UserInputMessage
                     \<lparr>uim_content = ''run'', uim_modelId = ''claude-sonnet-4.5'',
                      uim_origin = ''AI_EDITOR'', uim_userInputMessageContext = None\<rparr>,
                   AssistantResponseMessage
                     \<lparr>arm_content = ''calling'',
                      arm_toolUses =
                        Some [\<lparr>tu_toolUseId = JStr ''T1'', tu_name = ''web_search'',
                               tu_input = JObj [(''q'', JStr ''hi'')]\<rparr>]\<rparr>]\<rparr>,
             kr_profileArn = None\<rparr>,
            [(''web.search!'', ''web_search'')])"
  using threading_translation sanitize_web unsupported_web_raw unsupported_web_sanitized
  by (simp add: threadingEnvelope_def)

subsection \<open>Colliding tool names\<close>

text \<open>
  Claim C3, as stated, fails: the sanitizer trims the trailing underscore, so the first
  tool is not named \<open>a_\<close> and the second is not named \<open>a__2\<close>.
\<close>

theorem collision_names_counterexample:
  "\<not> (fst (getOrCreateKiroToolName ''a!'' noNames) = ''a_''
       \<or> fst (getOrCreateKiroToolName ''a?'' (snd (getOrCreateKiroToolName ''a!'' noNames)))
           = ''a__2'')"
  by (simp add: getOrCreateKiroToolName_def noNames_def setAdd_def sanitize_a_bang
        sanitize_a_query nextFree.simps candidateName_def showNat.simps digitChars_def Let_def)

text \<open>
  Claim C3, amended. For a request with the two tool definitions \<open>a!\<close> and then \<open>a?\<close>,
  both sanitize to \<open>a\<close>; the first is assigned \<open>a\<close> and the second \<open>a_2\<close>, and the returned
  tool-name map has an entry for each original name.
\<close>

theorem collision_names:
  "convertRequest demoClient ''uuid-1'' ''uuid-2'' collisionRequest =
     Inr (\<lparr>kr_conversationState =
             \<lparr>agentContinuationId = ''uuid-2'', agentTaskType = ''vibe'',
              chatTriggerType = ''MANUAL'',
              currentMessage =
                \<lparr>uim_content = ''hi'', uim_modelId = ''claude-sonnet-4.5'',
                 uim_origin = ''AI_EDITOR'',
                 uim_userInputMessageContext =
                   Some \<lparr>ctx_tools =
                           Some [\<lparr>ts_name = ''a'', ts_description = [],
                                  ts_inputSchema = JObj []\<rparr>,
                                 \<lparr>ts_name = ''a_2'', ts_description = [],
                                  ts_inputSchema = JObj []\<rparr>],
                         ctx_toolResults = None\<rparr>\<rparr>,
              conversationId = ''uuid-1'',
              history = []\<rparr>,
           kr_profileArn = None\<rparr>,
          [(''a!'', ''a''), (''a?'', ''a_2'')])"
  by (simp add: collisionRequest_def eval_defs mapModel_demo [unfolded demoClient_def]
        demoClient_def sanitize_a_bang sanitize_a_query unsupported_a nextFree.simps
        candidateName_def showNat.simps digitChars_def)

subsection \<open>Content that is neither a string nor an array\<close>

text \<open>
  Claim C4 says that the extractors return on every content value and give empty text for
  an unknown shape. \<open>extractTextContent\<close> does, but \<open>extractUserContent\<close> and
  \<open>extractAssistantContent\<close> iterate over whatever is not a string (and not falsy): on a
  plain object, a non-zero number and \<open>true\<close> they raise a TypeError. This theorem
  evaluates the three extractors on such values.
\<close>

theorem extractors_on_non_iterable_content:
  "extractTextContent (JObj kvs) = Inr []
   \<and> extractUserContent (JObj kvs) = Inl TypeError
   \<and> extractUserContent (JNum 5) = Inl TypeError
   \<and> extractUserContent (JBool True) = Inl TypeError
   \<and> extractAssistantContent parse (JObj kvs) names = Inl TypeError
   \<and> extractAssistantContent parse (JNum 5) names = Inl TypeError
   \<and> extractAssistantContent parse (JBool True) names = Inl TypeError"
  by (simp add: extractTextContent_def extractUserContent_def extractAssistantContent_def
        orElse_def)

subsection \<open>The generated identifiers\<close>

lemma withIds_Inl: "withIds c a (Inl e) = Inl e"
  by (simp add: withIds_def)

lemma withIds_bindE: "withIds c a (bindE m f) = bindE m (\<lambda>x. withIds c a (f x))"
  by (cases m) (simp_all add: bindE_def withIds_def)

lemma withIds_Inr:
  "withIds c a (Inr (\<lparr>kr_conversationState =
       \<lparr>agentContinuationId = u2, agentTaskType = t, chatTriggerType = g, currentMessage = cm,
        conversationId = u1, history = h\<rparr>, kr_profileArn = p\<rparr>, m)) =
   Inr (\<lparr>kr_conversationState =
       \<lparr>agentContinuationId = a, agentTaskType = t, chatTriggerType = g, currentMessage = cm,
        conversationId = c, history = h\<rparr>, kr_profileArn = p\<rparr>, m)"
  by (simp add: withIds_def)

lemma convertRequest_withIds:
  "withIds c a (convertRequest cl uuid1 uuid2 req) = convertRequest cl c a req"
  unfolding convertRequest_def Let_def
  by (simp only: withIds_bindE withIds_Inl withIds_Inr option.case_distrib [of "withIds c a"]
        if_distrib [of "withIds c a"] prod.case_distrib [of "withIds c a"])

text \<open>
  Claim C9. Two runs of \<open>convertRequest\<close> on the same request, with the same client
  configuration and credentials, differ only in the two generated identifiers: writing the
  second run's \<open>conversationId\<close> and \<open>agentContinuationId\<close> into the result of the first
  run gives exactly the result of the second run, the tool-name map and any error
  included; so the two results are equal once both identifiers are overwritten with the
  same values.
\<close>

theorem convertRequest_differs_only_in_ids:
  "withIds v1 v2 (convertRequest cl u1 u2 req) = convertRequest cl v1 v2 req
   \<and> withIds x y (convertRequest cl u1 u2 req) = withIds x y (convertRequest cl v1 v2 req)"
  by (simp add: convertRequest_withIds)

theorem convertRequest_differs_only_in_ids_witness:
  "withIds ''uuid-3'' ''uuid-4'' (convertRequest demoClient ''uuid-1'' ''uuid-2'' threadingRequest)
     = convertRequest demoClient ''uuid-3'' ''uuid-4'' threadingRequest
   \<and> convertRequest demoClient ''uuid-3'' ''uuid-4'' threadingRequest
     = Inr (threadingEnvelope\<lparr>kr_conversationState :=
               (kr_conversationState threadingEnvelope)
                 \<lparr>conversationId := ''uuid-3'', agentContinuationId := ''uuid-4''\<rparr>\<rparr>,
            [(''web.search!'', ''web_search'')])"
proof -
  note main = convertRequest_differs_only_in_ids
    [of "''uuid-3''" "''uuid-4''" demoClient "''uuid-1''" "''uuid-2''" threadingRequest]
  from main have a:
    "withIds ''uuid-3'' ''uuid-4'' (convertRequest demoClient ''uuid-1'' ''uuid-2'' threadingRequest)
       = convertRequest demoClient ''uuid-3'' ''uuid-4'' threadingRequest"
    by (rule conjunct1)
  have "convertRequest demoClient ''uuid-3'' ''uuid-4'' threadingRequest
          = withIds ''uuid-3'' ''uuid-4'' (Inr (threadingEnvelope, [(''web.search!'', ''web_search'')]))"
    unfolding a [symmetric] threading_translation ..
  then have b: "convertRequest demoClient ''uuid-3'' ''uuid-4'' threadingRequest
     = Inr (threadingEnvelope\<lparr>kr_conversationState :=
               (kr_conversationState threadingEnvelope)
                 \<lparr>conversationId := ''uuid-3'', agentContinuationId := ''uuid-4''\<rparr>\<rparr>,
            [(''web.search!'', ''web_search'')])"
    by (simp add: withIds_def)
  from a b show ?thesis by (rule conjI)
qed


section \<open>Properties of the summary and of callApiStream\<close>

subsection \<open>The summary, node by node\<close>

lemma summarize_deep: "6 < d \<Longrightarrow> summarizeForDebug v d = JStr maxDepthMark"
  by (simp add: summarizeForDebug.simps)

lemma summarize_str: "d \<le> 6 \<Longrightarrow> summarizeForDebug (JStr s) d = JStr (stringTag (length s))"
  by (simp add: summarizeForDebug.simps)

lemma summarize_num: "d \<le> 6 \<Longrightarrow> summarizeForDebug (JNum n) d = JNum n"
  by (simp add: summarizeForDebug.simps)

lemma summarize_bool: "d \<le> 6 \<Longrightarrow> summarizeForDebug (JBool b) d = JBool b"
  by (simp add: summarizeForDebug.simps)

lemma summarize_null: "d \<le> 6 \<Longrightarrow> summarizeForDebug JNull d = JNull"
  by (simp add: summarizeForDebug.simps)

lemma summarize_undefined: "d \<le> 6 \<Longrightarrow> summarizeForDebug JUndefined d = JStr ''<undefined>''"
  by (simp add: summarizeForDebug.simps)

lemma summarize_arr:
  "d \<le> 6 \<Longrightarrow> summarizeForDebug (JArr xs) d =
     JObj [(''_type'', JStr ''array''), (''length'', JNum (int (length xs))),
           (''sample'', JArr (map (\<lambda>x. summarizeForDebug x (d + 1)) (take 3 xs)))]"
  by (simp add: summarizeForDebug.simps)

lemma summarize_obj:
  "d \<le> 6 \<Longrightarrow> summarizeForDebug (JObj kvs) d =
     JObj (fold (\<lambda>k out. assignProp k (summarizeForDebug (propOf (JObj kvs) k) (d + 1)) out)
             (take 60 (map fst kvs))
             [(''_type'', JStr ''object''), (''keys'', JArr (map JStr (take 60 (map fst kvs))))])"
  by (simp add: summarizeForDebug.simps)

text \<open>Assigning properties in a loop.\<close>

lemma fold_assign_keys:
  "fst ` set (fold (\<lambda>k out. assignProp k (f k) out) ks init) =
     fst ` set init \<union> (set ks - {protoKey})"
  by (induction ks arbitrary: init) (auto simp: assignProp_def AList.dom_update)

lemma fold_assign_lookup:
  "map_of (fold (\<lambda>k out. assignProp k (f k) out) ks init) k =
     (if k \<in> set ks \<and> k \<noteq> protoKey then Some (f k) else map_of init k)"
  by (induction ks arbitrary: init) (auto simp: assignProp_def AList.update_conv')

lemma keysWithin_mono: "keysWithin n v \<subseteq> keysWithin (Suc n) v"
proof (induction n arbitrary: v)
  case 0
  show ?case by (cases v) auto
next
  case (Suc n)
  show ?case
  proof (cases v)
    case (JArr xs)
    then show ?thesis using Suc.IH by (simp del: keysWithin.simps(2) add: keysWithin.simps(2) [of "Suc n"] keysWithin.simps(2) [of n]) blast
  next
    case (JObj kvs)
    then show ?thesis using Suc.IH by (simp del: keysWithin.simps(2) add: keysWithin.simps(2) [of "Suc n"] keysWithin.simps(2) [of n]) blast
  qed simp_all
qed

lemma stringsOf_array_node:
  "stringsOf (JObj [(a, JStr b), (c, JNum n), (d, JArr ys)]) \<subseteq>
     {a, b, c, d} \<union> (\<Union>y \<in> set ys. stringsOf y)"
  by auto

lemma markers_mem:
  "''_type'' \<in> summaryMarkers" "''array'' \<in> summaryMarkers" "''object'' \<in> summaryMarkers"
  "''length'' \<in> summaryMarkers" "''sample'' \<in> summaryMarkers" "''keys'' \<in> summaryMarkers"
  "''<undefined>'' \<in> summaryMarkers" "maxDepthMark \<in> summaryMarkers"
  "stringTag n \<in> summaryMarkers"
  by (simp_all add: summaryMarkers_def)

lemma stringsOf_update:
  "stringsOf (JObj (AList.update k v al)) \<subseteq> insert k (stringsOf v \<union> stringsOf (JObj al))"
  by (induction al) auto

lemma stringsOf_assign:
  "stringsOf (JObj (assignProp k v al)) \<subseteq> insert k (stringsOf v \<union> stringsOf (JObj al))"
proof (cases "k = protoKey")
  case True
  then have "assignProp k v al = al" by (simp add: assignProp_def)
  then show ?thesis by auto
next
  case False
  then have "assignProp k v al = AList.update k v al" by (simp add: assignProp_def)
  then show ?thesis using stringsOf_update [of k v al] by simp
qed

lemma stringsOf_fold_assign:
  assumes "\<And>k. k \<in> set ks \<Longrightarrow> stringsOf (f k) \<subseteq> B" and "set ks \<subseteq> B"
    and "stringsOf (JObj init) \<subseteq> B"
  shows "stringsOf (JObj (fold (\<lambda>k out. assignProp k (f k) out) ks init)) \<subseteq> B"
  using assms
proof (induction ks arbitrary: init)
  case Nil
  then show ?case by simp
next
  case (Cons k ks)
  have "stringsOf (JObj (assignProp k (f k) init)) \<subseteq> insert k (stringsOf (f k) \<union> stringsOf (JObj init))"
    by (rule stringsOf_assign)
  also have "\<dots> \<subseteq> B"
    using Cons.prems(1) [of k] Cons.prems(2,3) by auto
  finally have init': "stringsOf (JObj (assignProp k (f k) init)) \<subseteq> B" .
  have "stringsOf (JObj (fold (\<lambda>k out. assignProp k (f k) out) ks (assignProp k (f k) init))) \<subseteq> B"
    using Cons.prems(1,2) init' by (intro Cons.IH) auto
  then show ?case by simp
qed

lemma stringsOf_object_node:
  "stringsOf (JObj [(a, JStr b), (c, JArr (map JStr ks))]) \<subseteq> {a, b, c} \<union> set ks"
  by auto

lemma into_markers3:
  "X \<subseteq> {a, b, c} \<union> K \<Longrightarrow> a \<in> M \<Longrightarrow> b \<in> M \<Longrightarrow> c \<in> M \<Longrightarrow> K \<subseteq> A \<Longrightarrow> X \<subseteq> A \<union> M"
  by blast

lemma into_markers4:
  "X \<subseteq> {a, b, c, d} \<union> K \<Longrightarrow> a \<in> M \<Longrightarrow> b \<in> M \<Longrightarrow> c \<in> M \<Longrightarrow> d \<in> M \<Longrightarrow> K \<subseteq> A \<union> M
     \<Longrightarrow> X \<subseteq> A \<union> M"
  by blast

lemma keysWithin_child_arr:
  "x \<in> set xs \<Longrightarrow> keysWithin n x \<subseteq> keysWithin (Suc n) (JArr xs)"
  by auto

lemma keysWithin_child_obj:
  "keysWithin n (propOf (JObj kvs) k) \<subseteq> keysWithin (Suc n) (JObj kvs)"
proof (cases "map_of kvs k")
  case None
  then show ?thesis by (cases n) simp_all
next
  case (Some w)
  then have "(k, w) \<in> set kvs" by (rule map_of_SomeD)
  then have "keysWithin n w \<subseteq> (\<Union>p \<in> set kvs. keysWithin n (snd p))" by force
  with Some show ?thesis by auto
qed

lemma keysWithin_top_obj: "fst ` set kvs \<subseteq> keysWithin n (JObj kvs)"
  by (cases n) auto

lemma child_bound:
  assumes ih: "S \<subseteq> (if d + 1 \<le> 6 then keysWithin (6 - (d + 1)) x else {}) \<union> M"
    and le: "d \<le> (6::nat)"
    and sub: "\<And>n. keysWithin n x \<subseteq> keysWithin (Suc n) v"
  shows "S \<subseteq> keysWithin (6 - d) v \<union> M"
proof (cases "d + 1 \<le> 6")
  case True
  then have eq: "6 - d = Suc (6 - (d + 1))" by simp
  from ih True have "S \<subseteq> keysWithin (6 - (d + 1)) x \<union> M" by simp
  also have "\<dots> \<subseteq> keysWithin (Suc (6 - (d + 1))) v \<union> M"
    using sub [of "6 - (d + 1)"] by blast
  finally show ?thesis unfolding eq .
next
  case False
  with ih show ?thesis by auto
qed

lemma summarize_strings:
  "stringsOf (summarizeForDebug v d) \<subseteq> (if d \<le> 6 then keysWithin (6 - d) v else {}) \<union> summaryMarkers"
proof (induction v d rule: summarizeForDebug.induct)
  case (1 v depth)
  show ?case
  proof (cases "6 < depth")
    case True
    then show ?thesis by (simp add: summarize_deep markers_mem)
  next
    case shallow: False
    then have le: "depth \<le> 6" by simp
    have goal: "stringsOf (summarizeForDebug v depth) \<subseteq> keysWithin (6 - depth) v \<union> summaryMarkers"
    proof (cases v)
      case JNull
      with le show ?thesis by (simp add: summarize_null)
    next
      case JUndefined
      with le show ?thesis by (simp add: summarize_undefined markers_mem)
    next
      case (JBool b)
      with le show ?thesis by (simp add: summarize_bool)
    next
      case (JNum n)
      with le show ?thesis by (simp add: summarize_num)
    next
      case (JStr s)
      with le show ?thesis by (simp add: summarize_str markers_mem)
    next
      case (JArr xs)
      have child: "stringsOf (summarizeForDebug x (depth + 1)) \<subseteq> keysWithin (6 - depth) v \<union> summaryMarkers"
        if "x \<in> set (take 3 xs)" for x
      proof (rule child_bound [OF _ le])
        show "stringsOf (summarizeForDebug x (depth + 1))
                \<subseteq> (if depth + 1 \<le> 6 then keysWithin (6 - (depth + 1)) x else {}) \<union> summaryMarkers"
          using "1.IH"(1) [OF shallow JArr that] .
        have x: "x \<in> set xs" using that by (rule in_set_takeD)
        show "keysWithin n x \<subseteq> keysWithin (Suc n) v" for n
          unfolding JArr using x by (rule keysWithin_child_arr)
      qed
      have kids: "(\<Union>y \<in> set (map (\<lambda>x. summarizeForDebug x (depth + 1)) (take 3 xs)). stringsOf y)
                    \<subseteq> keysWithin (6 - depth) v \<union> summaryMarkers"
        using child by (simp only: set_map) blast
      have "stringsOf (summarizeForDebug v depth) \<subseteq>
              {''_type'', ''array'', ''length'', ''sample''}
              \<union> (\<Union>y \<in> set (map (\<lambda>x. summarizeForDebug x (depth + 1)) (take 3 xs)). stringsOf y)"
        unfolding JArr summarize_arr [OF le] by (rule stringsOf_array_node)
      then show ?thesis
        by (rule into_markers4 [OF _ markers_mem(1,2,4,5) kids])
    next
      case (JObj kvs)
      define ks where "ks = take 60 (map fst kvs)"
      define f where "f = (\<lambda>k. summarizeForDebug (propOf (JObj kvs) k) (depth + 1))"
      define B where "B = keysWithin (6 - depth) v \<union> summaryMarkers"
      have ks_sub: "set ks \<subseteq> fst ` set kvs"
        unfolding ks_def using set_take_subset [of 60 "map fst kvs"] by auto
      have top: "fst ` set kvs \<subseteq> keysWithin (6 - depth) v"
        unfolding JObj by (rule keysWithin_top_obj)
      have ks_B: "set ks \<subseteq> B"
        unfolding B_def using ks_sub top by blast
      have child: "stringsOf (f k) \<subseteq> B" if "k \<in> set ks" for k
        unfolding B_def f_def
      proof (rule child_bound [OF _ le])
        show "stringsOf (summarizeForDebug (propOf (JObj kvs) k) (depth + 1))
                \<subseteq> (if depth + 1 \<le> 6 then keysWithin (6 - (depth + 1)) (propOf (JObj kvs) k) else {})
                   \<union> summaryMarkers"
          using "1.IH"(2) [OF shallow JObj] that unfolding ks_def by blast
        show "keysWithin n (propOf (JObj kvs) k) \<subseteq> keysWithin (Suc n) v" for n
          unfolding JObj by (rule keysWithin_child_obj)
      qed
      have "stringsOf (JObj [(''_type'', JStr ''object''), (''keys'', JArr (map JStr ks))])
              \<subseteq> {''_type'', ''object'', ''keys''} \<union> set ks"
        by (rule stringsOf_object_node)
      then have init_B: "stringsOf (JObj [(''_type'', JStr ''object''), (''keys'', JArr (map JStr ks))]) \<subseteq> B"
        unfolding B_def
        by (rule into_markers3 [OF _ markers_mem(1,3,6)]) (use ks_sub top in blast)
      have "stringsOf (JObj (fold (\<lambda>k out. assignProp k (f k) out) ks
               [(''_type'', JStr ''object''), (''keys'', JArr (map JStr ks))])) \<subseteq> B"
        using child ks_B init_B by (rule stringsOf_fold_assign)
      then show ?thesis
        unfolding JObj summarize_obj [OF le] B_def f_def ks_def .
    qed
    with le show ?thesis by simp
  qed
qed

subsection \<open>The property names of the envelope\<close>

lemma field_mem:
  "''conversationState'' \<in> envelopeFieldNames" "''profileArn'' \<in> envelopeFieldNames"
  "''agentContinuationId'' \<in> envelopeFieldNames" "''agentTaskType'' \<in> envelopeFieldNames"
  "''chatTriggerType'' \<in> envelopeFieldNames" "''currentMessage'' \<in> envelopeFieldNames"
  "''conversationId'' \<in> envelopeFieldNames" "''history'' \<in> envelopeFieldNames"
  "''userInputMessage'' \<in> envelopeFieldNames" "''assistantResponseMessage'' \<in> envelopeFieldNames"
  "''content'' \<in> envelopeFieldNames" "''modelId'' \<in> envelopeFieldNames"
  "''origin'' \<in> envelopeFieldNames" "''userInputMessageContext'' \<in> envelopeFieldNames"
  "''tools'' \<in> envelopeFieldNames" "''toolResults'' \<in> envelopeFieldNames"
  "''toolUses'' \<in> envelopeFieldNames" "''toolSpecification'' \<in> envelopeFieldNames"
  "''toolUseId'' \<in> envelopeFieldNames" "''status'' \<in> envelopeFieldNames"
  "''name'' \<in> envelopeFieldNames" "''input'' \<in> envelopeFieldNames"
  by (simp_all add: envelopeFieldNames_def)

lemma keysWithin_scalar [simp]:
  "keysWithin n (JStr s) = {}" "keysWithin n (JNum i) = {}" "keysWithin n (JBool b) = {}"
  "keysWithin n JNull = {}" "keysWithin n JUndefined = {}"
  by (cases n; simp)+

lemma keysWithin_arr_map:
  "keysWithin (Suc n) (JArr (map g xs)) = (\<Union>x \<in> set xs. keysWithin n (g x))"
  by simp

lemma keysWithin_obj_Suc:
  "keysWithin (Suc n) (JObj kvs) = fst ` set kvs \<union> (\<Union>p \<in> set kvs. keysWithin n (snd p))"
  by simp

lemma keysWithin_obj_0: "keysWithin 0 (JObj kvs) = fst ` set kvs"
  by simp

lemma keysWithin_arr_0: "keysWithin 0 (JArr xs) = {}"
  by simp

lemmas kw = keysWithin_arr_map keysWithin_obj_Suc keysWithin_obj_0 keysWithin_arr_0

lemma K0_toolUse: "keysWithin 0 (toolUse_json u) \<subseteq> envelopeFieldNames"
  by (simp add: toolUse_json_def field_mem)

lemma K0_toolResult: "keysWithin 0 (toolResult_json r) \<subseteq> envelopeFieldNames"
  by (simp add: toolResult_json_def field_mem)

lemma K0_toolSpec: "keysWithin 0 (toolSpecification_json t) \<subseteq> envelopeFieldNames"
  by (simp add: toolSpecification_json_def field_mem)

lemmas kw_simps = kw option.case append.simps list.set image_insert image_empty fst_conv snd_conv
  UN_insert UN_empty Un_empty_right Un_empty_left

lemma K2_context: "keysWithin (Suc (Suc 0)) (context_json c) \<subseteq> envelopeFieldNames"
  unfolding context_json_def
  by (cases "ctx_tools c"; cases "ctx_toolResults c")
     (simp_all only: kw option.case append.simps list.set image_insert image_empty fst_conv snd_conv
        UN_insert UN_empty Un_empty_right Un_empty_left, 
      insert K0_toolSpec K0_toolResult field_mem(15,16), auto)

lemma K3_userInputMessage:
  "keysWithin (Suc (Suc (Suc 0))) (userInputMessage_json m) \<subseteq> envelopeFieldNames"
  unfolding userInputMessage_json_def
  by (cases "uim_userInputMessageContext m")
     (simp_all only: kw_simps keysWithin_scalar,
      insert K2_context field_mem(11,12,13,14), auto)

lemma K2_userInputMessage:
  "keysWithin (Suc (Suc 0)) (userInputMessage_json m) \<subseteq> envelopeFieldNames"
  using keysWithin_mono [of "Suc (Suc 0)" "userInputMessage_json m"] K3_userInputMessage [of m]
  by blast

lemma K2_assistantResponseMessage:
  "keysWithin (Suc (Suc 0)) (assistantResponseMessage_json m) \<subseteq> envelopeFieldNames"
  unfolding assistantResponseMessage_json_def
  by (cases "arm_toolUses m")
     (simp_all only: kw_simps keysWithin_scalar,
      insert K0_toolUse field_mem(11,17), auto)

lemma K3_historyEntry:
  "keysWithin (Suc (Suc (Suc 0))) (historyEntry_json e) \<subseteq> envelopeFieldNames"
proof (cases e)
  case (UserInputMessage m)
  show ?thesis
    unfolding UserInputMessage historyEntry_json.simps
    by (simp only: kw_simps, insert K2_userInputMessage [of m] field_mem(9), auto)
next
  case (AssistantResponseMessage m)
  show ?thesis
    unfolding AssistantResponseMessage historyEntry_json.simps
    by (simp only: kw_simps, insert K2_assistantResponseMessage [of m] field_mem(10), auto)
qed

lemma K5_conversationState:
  "keysWithin (Suc (Suc (Suc (Suc (Suc 0))))) (conversationState_json cs) \<subseteq> envelopeFieldNames"
  unfolding conversationState_json_def
  by (simp only: kw_simps keysWithin_scalar,
      insert K3_historyEntry K3_userInputMessage [of "currentMessage cs"] field_mem(3-9), auto)

lemma K6_kiroRequest: "keysWithin 6 (kiroRequest_json r) \<subseteq> envelopeFieldNames"
proof -
  have six: "(6::nat) = Suc (Suc (Suc (Suc (Suc (Suc 0)))))" by simp
  show ?thesis
    unfolding six kiroRequest_json_def
    by (cases "kr_profileArn r")
       (simp_all only: kw_simps keysWithin_scalar,
        insert K5_conversationState [of "kr_conversationState r"] field_mem(1,2), auto)
qed

lemma summary_of_envelope_strings:
  "stringsOf (summarizeForDebug (kiroRequest_json r) 0) \<subseteq> envelopeFieldNames \<union> summaryMarkers"
  using summarize_strings [of "kiroRequest_json r" 0] K6_kiroRequest [of r] by auto

text \<open>
  Claim C6. While the depth is at most 6, the summary of a string is \<open><string len=N>\<close>
  with \<open>N\<close> its length, numbers and booleans are returned as they are, an array becomes
  a node with its length and the summaries of its first three elements, and an object
  becomes a node whose properties are \<open>_type\<close>, \<open>keys\<close> and its first 60 keys, each key
  holding the summary of its value one level deeper (\<open>keys\<close> lists those keys unless the
  object has a key of that name). The one key that gets no property is \<open>__proto__\<close>: it is
  listed in \<open>keys\<close>, but assigning to it creates no own property. Beyond depth 6 every
  value becomes \<open>[MaxDepth]\<close>. For
  the envelope that \<open>convertRequest\<close> builds, every string in the summary is one of the
  envelope's fixed property names or one of the summary's own marks and length tags: no
  text of the request is in it.
\<close>

theorem summarizeForDebug_bounded_trace:
  "(\<forall>s d. d \<le> 6 \<longrightarrow>
       summarizeForDebug (JStr s) d = JStr (''<string len='' @ showNat (length s) @ ''>''))
   \<and> (\<forall>n d. d \<le> 6 \<longrightarrow> summarizeForDebug (JNum n) d = JNum n)
   \<and> (\<forall>b d. d \<le> 6 \<longrightarrow> summarizeForDebug (JBool b) d = JBool b)
   \<and> (\<forall>xs d. d \<le> 6 \<longrightarrow>
         summarizeForDebug (JArr xs) d =
           JObj [(''_type'', JStr ''array''), (''length'', JNum (int (length xs))),
                 (''sample'', JArr (map (\<lambda>x. summarizeForDebug x (d + 1)) (take 3 xs)))])
   \<and> (\<forall>kvs d. d \<le> 6 \<longrightarrow>
         (\<exists>out. summarizeForDebug (JObj kvs) d = JObj out
            \<and> fst ` set out =
                {''_type'', ''keys''} \<union> (set (take 60 (map fst kvs)) - {''__proto__''})
            \<and> (\<forall>k \<in> set (take 60 (map fst kvs)).
                  k \<noteq> ''__proto__'' \<longrightarrow>
                  map_of out k = Some (summarizeForDebug (propOf (JObj kvs) k) (d + 1)))
            \<and> (''keys'' \<notin> set (take 60 (map fst kvs)) \<longrightarrow>
                  map_of out ''keys'' = Some (JArr (map JStr (take 60 (map fst kvs)))))))
   \<and> (\<forall>v d. 6 < d \<longrightarrow> summarizeForDebug v d = JStr ''[MaxDepth]'')
   \<and> stringsOf (summarizeForDebug (kiroRequest_json r) 0) \<subseteq> envelopeFieldNames \<union> summaryMarkers"
proof (intro conjI allI impI)
  fix s :: string and d :: nat
  assume "d \<le> 6"
  then show "summarizeForDebug (JStr s) d = JStr (''<string len='' @ showNat (length s) @ ''>'')"
    by (simp add: summarize_str stringTag_def)
next
  fix n :: int and d :: nat
  assume "d \<le> 6"
  then show "summarizeForDebug (JNum n) d = JNum n" by (rule summarize_num)
next
  fix b :: bool and d :: nat
  assume "d \<le> 6"
  then show "summarizeForDebug (JBool b) d = JBool b" by (rule summarize_bool)
next
  fix xs :: "json list" and d :: nat
  assume "d \<le> 6"
  then show "summarizeForDebug (JArr xs) d =
           JObj [(''_type'', JStr ''array''), (''length'', JNum (int (length xs))),
                 (''sample'', JArr (map (\<lambda>x. summarizeForDebug x (d + 1)) (take 3 xs)))]"
    by (rule summarize_arr)
next
  fix kvs :: "(string \<times> json) list" and d :: nat
  assume le: "d \<le> 6"
  define ks where "ks = take 60 (map fst kvs)"
  define f where "f = (\<lambda>k. summarizeForDebug (propOf (JObj kvs) k) (d + 1))"
  define init where "init = [(''_type'', JStr ''object''), (''keys'', JArr (map JStr ks))]"
  define out where "out = fold (\<lambda>k out. assignProp k (f k) out) ks init"
  have sum: "summarizeForDebug (JObj kvs) d = JObj out"
    unfolding summarize_obj [OF le] out_def f_def init_def ks_def ..
  have "fst ` set init = {''_type'', ''keys''}"
    by (simp add: init_def)
  then have keys: "fst ` set out = {''_type'', ''keys''} \<union> (set ks - {''__proto__''})"
    unfolding out_def fold_assign_keys protoKey_def by simp
  have vals: "map_of out k = Some (f k)" if "k \<in> set ks" and "k \<noteq> ''__proto__''" for k
    unfolding out_def using that by (simp add: fold_assign_lookup protoKey_def)
  have "map_of init ''keys'' = Some (JArr (map JStr ks))"
    by (simp add: init_def)
  then have listed: "map_of out ''keys'' = Some (JArr (map JStr ks))" if "''keys'' \<notin> set ks"
    unfolding out_def using that by (simp add: fold_assign_lookup)
  show "\<exists>out. summarizeForDebug (JObj kvs) d = JObj out
            \<and> fst ` set out =
                {''_type'', ''keys''} \<union> (set (take 60 (map fst kvs)) - {''__proto__''})
            \<and> (\<forall>k \<in> set (take 60 (map fst kvs)).
                  k \<noteq> ''__proto__'' \<longrightarrow>
                  map_of out k = Some (summarizeForDebug (propOf (JObj kvs) k) (d + 1)))
            \<and> (''keys'' \<notin> set (take 60 (map fst kvs)) \<longrightarrow>
                  map_of out ''keys'' = Some (JArr (map JStr (take 60 (map fst kvs)))))"
  proof (intro exI conjI ballI impI)
    show "summarizeForDebug (JObj kvs) d = JObj out" by (rule sum)
    show "fst ` set out = {''_type'', ''keys''} \<union> (set (take 60 (map fst kvs)) - {''__proto__''})"
      using keys unfolding ks_def .
    show "map_of out k = Some (summarizeForDebug (propOf (JObj kvs) k) (d + 1))"
      if "k \<in> set (take 60 (map fst kvs))" and "k \<noteq> ''__proto__''" for k
      using vals [of k] that unfolding ks_def f_def by simp
    show "map_of out ''keys'' = Some (JArr (map JStr (take 60 (map fst kvs))))"
      if "''keys'' \<notin> set (take 60 (map fst kvs))"
      using listed that unfolding ks_def by simp
  qed
next
  fix v :: json and d :: nat
  assume "6 < d"
  then show "summarizeForDebug v d = JStr ''[MaxDepth]''"
    by (simp add: summarize_deep maxDepthMark_def)
next
  show "stringsOf (summarizeForDebug (kiroRequest_json r) 0) \<subseteq> envelopeFieldNames \<union> summaryMarkers"
    by (rule summary_of_envelope_strings)
qed

lemma not_a_tag: "hd s \<noteq> CHR ''<'' \<Longrightarrow> s \<notin> range stringTag"
  by (auto simp: stringTag_def)

lemma request_text_not_marker:
  "''run'' \<notin> summaryMarkers" "''calling'' \<notin> summaryMarkers" "''42'' \<notin> summaryMarkers"
  by (simp_all add: summaryMarkers_def maxDepthMark_def not_a_tag)

lemma request_text_not_field:
  "''run'' \<notin> envelopeFieldNames" "''calling'' \<notin> envelopeFieldNames"
  "''42'' \<notin> envelopeFieldNames"
  by (simp_all add: envelopeFieldNames_def)

theorem summarizeForDebug_bounded_trace_witness:
  "summarizeForDebug (JStr ''run'') 0 = JStr ''<string len=3>''
   \<and> summarizeForDebug (JArr [JStr ''p'', JStr ''q'', JStr ''r'', JStr ''s'']) 6 =
       JObj [(''_type'', JStr ''array''), (''length'', JNum 4),
             (''sample'', JArr [JStr ''[MaxDepth]'', JStr ''[MaxDepth]'', JStr ''[MaxDepth]''])]
   \<and> ''run'' \<notin> stringsOf (summarizeForDebug (kiroRequest_json threadingEnvelope) 0)
   \<and> ''calling'' \<notin> stringsOf (summarizeForDebug (kiroRequest_json threadingEnvelope) 0)
   \<and> ''42'' \<notin> stringsOf (summarizeForDebug (kiroRequest_json threadingEnvelope) 0)
   \<and> summarizeForDebug (JObj [(''__proto__'', JStr ''x''), (''a'', JBool True)]) 0 =
       JObj [(''_type'', JStr ''object''), (''keys'', JArr [JStr ''__proto__'', JStr ''a'']),
             (''a'', JBool True)]"
proof -
  note main = summarizeForDebug_bounded_trace [of threadingEnvelope]
  note strs = main [THEN conjunct1, rule_format]
  note arrs = main [THEN conjunct2, THEN conjunct2, THEN conjunct2, THEN conjunct1, rule_format]
  note deep = main [THEN conjunct2, THEN conjunct2, THEN conjunct2, THEN conjunct2,
      THEN conjunct2, THEN conjunct1, rule_format]
  note sub = main [THEN conjunct2, THEN conjunct2, THEN conjunct2, THEN conjunct2,
      THEN conjunct2, THEN conjunct2]
  have three: "showNat (length ''run'') = ''3''"
    by (simp add: showNat.simps digitChars_def)
  have "summarizeForDebug (JStr ''run'') 0 = JStr (''<string len='' @ showNat (length ''run'') @ ''>'')"
    by (rule strs) simp
  then have a: "summarizeForDebug (JStr ''run'') 0 = JStr ''<string len=3>''"
    unfolding three by simp
  have seven: "summarizeForDebug x (6 + 1) = JStr ''[MaxDepth]''" for x
    by (rule deep) simp
  have "summarizeForDebug (JArr [JStr ''p'', JStr ''q'', JStr ''r'', JStr ''s'']) 6 =
       JObj [(''_type'', JStr ''array''),
             (''length'', JNum (int (length [JStr ''p'', JStr ''q'', JStr ''r'', JStr ''s'']))),
             (''sample'', JArr (map (\<lambda>x. summarizeForDebug x (6 + 1))
                                 (take 3 [JStr ''p'', JStr ''q'', JStr ''r'', JStr ''s''])))]"
    by (rule arrs) simp
  then have b: "summarizeForDebug (JArr [JStr ''p'', JStr ''q'', JStr ''r'', JStr ''s'']) 6 =
       JObj [(''_type'', JStr ''array''), (''length'', JNum 4),
             (''sample'', JArr [JStr ''[MaxDepth]'', JStr ''[MaxDepth]'', JStr ''[MaxDepth]''])]"
    unfolding seven by simp
  have c: "s \<notin> stringsOf (summarizeForDebug (kiroRequest_json threadingEnvelope) 0)"
    if "s \<notin> envelopeFieldNames" and "s \<notin> summaryMarkers" for s
    using sub that by blast
  have d: "summarizeForDebug (JObj [(''__proto__'', JStr ''x''), (''a'', JBool True)]) 0 =
       JObj [(''_type'', JStr ''object''), (''keys'', JArr [JStr ''__proto__'', JStr ''a'']),
             (''a'', JBool True)]"
    by (simp add: summarize_obj summarize_str summarize_bool assignProp_def protoKey_def)
  show ?thesis
    using a b c [OF request_text_not_field(1) request_text_not_marker(1)]
      c [OF request_text_not_field(2) request_text_not_marker(2)]
      c [OF request_text_not_field(3) request_text_not_marker(3)] d
    by (intro conjI)
qed

subsection \<open>The order of token acquisition and translation\<close>

text \<open>
  Claim C5, as stated, fails: for a request with no messages and a token manager that
  has a token, \<open>callApiStream\<close> ends with the translation error \<open>EmptyMessages\<close> after it
  has asked the token manager for a token.
\<close>

theorem token_before_translation_counterexample:
  "callApiStream demoClient demoCollaborators emptyRequest =
     ([EnsureValidToken], Inl (TranslationError EmptyMessages))"
  by (simp add: callApiStream_def demoCollaborators_def convertRequest_def emptyRequest_def
        demoRequest_def mapModel_demo)

text \<open>
  Claim C5, amended. Within \<open>callApiStream\<close> the bearer token is obtained first. If the
  token manager fails, nothing else happens. Otherwise the request is translated, after
  the token and before the headers are built and the upstream request is sent: a
  translation error (such as \<open>EmptyMessages\<close> or \<open>UnsupportedModel\<close>) is raised after
  exactly one token acquisition and before any upstream request, and a successful
  translation is followed by exactly one upstream request whose body is the envelope.
  \<open>callApiStream\<close> itself writes no log row on any path.
\<close>

theorem callApiStream_token_then_translation:
  "(\<forall>msg. tokenResult env = Inl msg \<longrightarrow>
       callApiStream cl env req = ([EnsureValidToken], Inl (TokenError msg)))
   \<and> (\<forall>token e.
         tokenResult env = Inr token
         \<and> convertRequest cl (uuidConversation env) (uuidContinuation env) req = Inl e \<longrightarrow>
         callApiStream cl env req = ([EnsureValidToken], Inl (TranslationError e)))
   \<and> (\<forall>token k m.
         tokenResult env = Inr token
         \<and> convertRequest cl (uuidConversation env) (uuidContinuation env) req = Inr (k, m) \<longrightarrow>
         (\<exists>url headers agent.
            fst (callApiStream cl env req) =
              [EnsureValidToken, Fetch url headers (kiroRequest_json k) agent]))"
  by (simp add: callApiStream_def Let_def split: sum.split)

theorem callApiStream_token_then_translation_witness:
  "tokenResult demoCollaborators = Inr ''token''
   \<and> convertRequest demoClient (uuidConversation demoCollaborators)
         (uuidContinuation demoCollaborators) unknownModelRequest = Inl (UnsupportedModel ''gpt'')
   \<and> callApiStream demoClient demoCollaborators unknownModelRequest =
       ([EnsureValidToken], Inl (TranslationError (UnsupportedModel ''gpt'')))
   \<and> fst (callApiStream demoClient demoCollaborators threadingRequest) =
       [EnsureValidToken,
        Fetch ''https://q.us-east-1.amazonaws.com/generateAssistantResponse''
          (buildHeaders demoClient ''uuid-3'' ''00'' ''token'')
          (kiroRequest_json threadingEnvelope) None]"
proof -
  note main = callApiStream_token_then_translation
    [of demoCollaborators demoClient unknownModelRequest]
  have tok: "tokenResult demoCollaborators = Inr ''token''"
    by (simp add: demoCollaborators_def)
  have tr: "convertRequest demoClient (uuidConversation demoCollaborators)
         (uuidContinuation demoCollaborators) unknownModelRequest = Inl (UnsupportedModel ''gpt'')"
    by (simp add: convertRequest_def unknownModelRequest_def demoRequest_def mapModel_unknown)
  from main tok tr
  have a: "callApiStream demoClient demoCollaborators unknownModelRequest =
       ([EnsureValidToken], Inl (TranslationError (UnsupportedModel ''gpt'')))"
    by blast
  have b: "fst (callApiStream demoClient demoCollaborators threadingRequest) =
       [EnsureValidToken,
        Fetch ''https://q.us-east-1.amazonaws.com/generateAssistantResponse''
          (buildHeaders demoClient ''uuid-3'' ''00'' ''token'')
          (kiroRequest_json threadingEnvelope) None]"
  proof -
    have env: "uuidConversation demoCollaborators = ''uuid-1''"
      "uuidContinuation demoCollaborators = ''uuid-2''"
      "uuidInvocation demoCollaborators = ''uuid-3''" "randomMachineId demoCollaborators = ''00''"
      by (simp_all add: demoCollaborators_def)
    have cl: "cfg_region demoClient = None" "cfg_proxyUrl demoClient = None"
      by (simp_all add: demoClient_def)
    show ?thesis
      by (simp add: callApiStream_def tok env cl threading_translation orDefault_def Let_def
            split: sum.split)
  qed
  from tok tr a b show ?thesis by (intro conjI)
qed


end
